theory Spec2Isabelle
  imports Complex_Main "HOL-Library.AList"
begin

section \<open>Python values used by the benchmark\<close>

text \<open>
  The benchmark (\<^verbatim>\<open>benchmark/hstar_demo.py\<close>) works on a series of numbers, on
  integer indices and on dictionaries keyed by the forecast horizon. Series values are
  modelled as reals, and sums, means and quotients are exact; the one place where the
  rounding of the 64-bit floats decides what the code does next, the product that gives
  the split index, takes the float product as a parameter. Lengths, the warm-up, the
  lag order and horizons are natural numbers. A split index, a step and an origin are
  integers: \<^verbatim>\<open>int(n * train_frac)\<close> can be negative, and a negative step gives
  origins that descend and may be negative. Every exception the code can raise is a
  value of \<open>error\<close>.
\<close>

datatype error = ValueError | IndexError | KeyError | ZeroDivisionError

text \<open>A dictionary keeps its keys in insertion order; assigning to a key that is
  present replaces the value in place, which is what \<open>AList.update\<close> does.\<close>

type_synonym ('k, 'v) dict = "('k \<times> 'v) list"

text \<open>The value stored per horizon: \<^verbatim>\<open>{'rmse': ..., 'skill': ...}\<close>.\<close>

record skill_record =
  rmse :: real
  skill :: real

subsection \<open>Indexing, slicing, ranges\<close>

text \<open>\<^verbatim>\<open>int(x)\<close> on a float truncates towards zero.\<close>

definition py_int :: "real \<Rightarrow> int" where
  "py_int x = (if 0 \<le> x then \<lfloor>x\<rfloor> else \<lceil>x\<rceil>)"

text \<open>A slice bound on a sequence of length \<open>n\<close>: a negative bound counts from the
  end, and every bound is clamped to \<open>[0, n]\<close>. Slices never raise.\<close>

definition slice_bound :: "nat \<Rightarrow> int \<Rightarrow> nat" where
  "slice_bound n i = (if i < 0 then nat (int n + i) else min n (nat i))"

definition slice_to :: "'a list \<Rightarrow> int \<Rightarrow> 'a list" where
  "slice_to xs b = take (slice_bound (length xs) b) xs"

definition slice_from :: "'a list \<Rightarrow> int \<Rightarrow> 'a list" where
  "slice_from xs a = drop (slice_bound (length xs) a) xs"

definition slice :: "'a list \<Rightarrow> int \<Rightarrow> int \<Rightarrow> 'a list" where
  "slice xs a b = drop (slice_bound (length xs) a) (take (slice_bound (length xs) b) xs)"

text \<open>\<^verbatim>\<open>s.iloc[-p:]\<close>: the last \<open>p\<close> values, and the whole sequence when \<open>p = 0\<close>
  (the bound \<open>-0\<close> is \<open>0\<close>).\<close>

definition last_p :: "'a list \<Rightarrow> nat \<Rightarrow> 'a list" where
  "last_p xs p = slice_from xs (- int p)"

text \<open>Reading one position (\<^verbatim>\<open>s.iloc[i]\<close>, \<^verbatim>\<open>a[i]\<close>): a negative index counts
  from the end, an index out of range raises IndexError.\<close>

definition iloc :: "'a list \<Rightarrow> int \<Rightarrow> error + 'a" where
  "iloc xs i =
     (if 0 \<le> i \<and> i < int (length xs) then Inr (xs ! nat i)
      else if i < 0 \<and> - int (length xs) \<le> i then Inr (xs ! nat (int (length xs) + i))
      else Inl IndexError)"

text \<open>\<^verbatim>\<open>max(xs)\<close> raises ValueError on an empty list.\<close>

definition py_max :: "nat list \<Rightarrow> error + nat" where
  "py_max xs = (case xs of [] \<Rightarrow> Inl ValueError | x # rest \<Rightarrow> Inr (fold max rest x))"

text \<open>\<^verbatim>\<open>range(start, stop, step)\<close> over the integers. A zero step raises
  ValueError. Otherwise the range holds the values \<open>start + i * step\<close> for \<open>i\<close>
  below its length: with a positive step the values ascend and stay below \<open>stop\<close>,
  with a negative step they descend and stay above \<open>stop\<close>.\<close>

definition range_len :: "int \<Rightarrow> int \<Rightarrow> int \<Rightarrow> nat" where
  "range_len start stop step =
     (if 0 < step
      then (if start < stop then nat ((stop - start - 1) div step + 1) else 0)
      else (if stop < start then nat ((start - stop - 1) div (- step) + 1) else 0))"

definition py_range :: "int \<Rightarrow> int \<Rightarrow> int \<Rightarrow> error + int list" where
  "py_range start stop step =
     (if step = 0 then Inl ValueError
      else Inr (map (\<lambda>i. start + int i * step) [0..<range_len start stop step]))"

subsection \<open>Array operations\<close>

text \<open>\<^verbatim>\<open>np.mean\<close> of a list of numbers; the callers apply it to non-empty lists.\<close>

definition np_mean :: "real list \<Rightarrow> real" where
  "np_mean xs = sum_list xs / real (length xs)"

text \<open>\<^verbatim>\<open>s.rolling(window=w, min_periods=1).mean()\<close>: position \<open>i\<close> holds the mean of
  the values at the positions \<open>max 0 (i - w + 1), \<dots>, i\<close>.\<close>

definition rolling_mean :: "nat \<Rightarrow> real list \<Rightarrow> real list" where
  "rolling_mean w ys =
     map (\<lambda>i. np_mean (drop (Suc i - w) (take (Suc i) ys))) [0..<length ys]"

text \<open>\<^verbatim>\<open>np.roll(a, i)\<close> moves every element \<open>i\<close> places to the right, cyclically.\<close>

definition np_roll :: "'a list \<Rightarrow> nat \<Rightarrow> 'a list" where
  "np_roll xs i =
     (let m = length xs in if m = 0 then [] else rotate (m - i mod m) xs)"

text \<open>\<^verbatim>\<open>np.column_stack(cols)\<close> of one-dimensional arrays of one length: row \<open>j\<close>
  holds the \<open>j\<close>-th element of every column. An empty list of columns raises
  ValueError.\<close>

definition column_stack :: "'a list list \<Rightarrow> error + 'a list list" where
  "column_stack cols =
     (case cols of
        [] \<Rightarrow> Inl ValueError
      | c # _ \<Rightarrow> Inr (map (\<lambda>j. map (\<lambda>col. col ! j) cols) [0..<length c]))"

text \<open>Float division, with a zero divisor treated as a fault.\<close>

definition fdiv :: "real \<Rightarrow> real \<Rightarrow> error + real" where
  "fdiv a b = (if b = 0 then Inl ZeroDivisionError else Inr (a / b))"

subsection \<open>The estimators of scikit-learn\<close>

text \<open>
  \<^verbatim>\<open>StandardScaler\<close> and \<^verbatim>\<open>Ridge\<close> are library objects. The protocols are modelled
  over any implementation of their five operations; \<open>'s\<close> is the state of a fitted
  scaler, \<open>'m\<close> that of a fitted regressor, and every operation may raise.
\<close>

record ('s, 'm) sklearn =
  scaler_fit :: "real list \<Rightarrow> error + 's"
  scaler_transform :: "'s \<Rightarrow> real list \<Rightarrow> error + real list"
  scaler_inverse_transform :: "'s \<Rightarrow> real \<Rightarrow> error + real"
  ridge_fit :: "real list list \<Rightarrow> real list \<Rightarrow> error + 'm"
  ridge_predict :: "'m \<Rightarrow> real list \<Rightarrow> error + real"

section \<open>Shared pieces of the two protocols\<close>

text \<open>
  Both protocols fit the scaler and the regressor with the same statements:
  \<^verbatim>\<open>
  scaler = StandardScaler()
  y_train_scaled = scaler.fit_transform(y_train.reshape(-1, 1)).flatten()
  X_train = np.column_stack([np.roll(y_train_scaled, i) for i in range(1, p+1)])[p:]
  y_train_target = y_train_scaled[p:]
  model = Ridge(alpha=1.0)
  model.fit(X_train, y_train_target)
  \<close>
\<close>

definition fit_ar :: "('s, 'm) sklearn \<Rightarrow> nat \<Rightarrow> real list \<Rightarrow> error + ('s \<times> 'm)" where
  "fit_ar lib p y_train =
     (case scaler_fit lib y_train of Inl e \<Rightarrow> Inl e | Inr scaler \<Rightarrow>
      case scaler_transform lib scaler y_train of Inl e \<Rightarrow> Inl e | Inr y_train_scaled \<Rightarrow>
      case column_stack (map (np_roll y_train_scaled) [1..<Suc p]) of Inl e \<Rightarrow> Inl e | Inr cols \<Rightarrow>
      case ridge_fit lib (drop p cols) (drop p y_train_scaled) of Inl e \<Rightarrow> Inl e | Inr model \<Rightarrow>
      Inr (scaler, model))"

text \<open>
  and they forecast from a window of smoothed values with the same statements:
  \<^verbatim>\<open>
  X_test_h = scaler.transform(window.values.reshape(-1, 1)).flatten()
  X_test_h = X_test_h[::-1].reshape(1, -1)
  y_pred_scaled = model.predict(X_test_h)[0]
  y_pred = scaler.inverse_transform([[y_pred_scaled]])[0, 0]
  \<close>
\<close>

definition forecast :: "('s, 'm) sklearn \<Rightarrow> 's \<Rightarrow> 'm \<Rightarrow> real list \<Rightarrow> error + real" where
  "forecast lib scaler model window =
     (case scaler_transform lib scaler window of Inl e \<Rightarrow> Inl e | Inr X_test_h \<Rightarrow>
      case ridge_predict lib model (rev X_test_h) of Inl e \<Rightarrow> Inl e | Inr y_pred_scaled \<Rightarrow>
      scaler_inverse_transform lib scaler y_pred_scaled)"

text \<open>
  and they score a forecast with the same statements:
  \<^verbatim>\<open>
  err_model = (y_pred - y_true)**2
  err_persist = (y_persist - y_true)**2
  skill = 1 - (err_model / err_persist) if err_persist > 0 else 0
  ... np.sqrt(err_model) ... skill ...
  \<close>
\<close>

definition skill_score :: "real \<Rightarrow> real \<Rightarrow> error + real" where
  "skill_score err_model err_persist =
     (if err_persist > 0
      then (case fdiv err_model err_persist of Inl e \<Rightarrow> Inl e | Inr q \<Rightarrow> Inr (1 - q))
      else Inr 0)"

definition score :: "real \<Rightarrow> real \<Rightarrow> real \<Rightarrow> error + skill_record" where
  "score y_pred y_true y_persist =
     (let err_model = (y_pred - y_true)\<^sup>2;
          err_persist = (y_persist - y_true)\<^sup>2
      in case skill_score err_model err_persist of
           Inl e \<Rightarrow> Inl e
         | Inr s \<Rightarrow> Inr \<lparr>rmse = sqrt err_model, skill = s\<rparr>)"

section \<open>The static protocol\<close>

text \<open>
  The body of the loop over the horizons, after the guard
  (lines 95 to 116 of \<^verbatim>\<open>static_leaky_protocol\<close>):
  the window is \<^verbatim>\<open>y_rolled.iloc[split_idx:split_idx+p]\<close>, the truth is
  \<^verbatim>\<open>y_test[h-1]\<close> with \<^verbatim>\<open>y_test = y.iloc[split_idx:]\<close>, the persistence value is
  \<^verbatim>\<open>y.iloc[split_idx-1]\<close>.
\<close>

definition static_sample ::
  "('s, 'm) sklearn \<Rightarrow> real list \<Rightarrow> int \<Rightarrow> nat \<Rightarrow> real list \<Rightarrow> 's \<Rightarrow> 'm \<Rightarrow> nat
     \<Rightarrow> error + skill_record" where
  "static_sample lib y split_idx p y_rolled scaler model h =
     (case forecast lib scaler model (slice y_rolled split_idx (split_idx + int p)) of
        Inl e \<Rightarrow> Inl e | Inr y_pred \<Rightarrow>
      case iloc (slice_from y split_idx) (int h - 1) of Inl e \<Rightarrow> Inl e | Inr y_true \<Rightarrow>
      case iloc y (split_idx - 1) of Inl e \<Rightarrow> Inl e | Inr y_persist \<Rightarrow>
      score y_pred y_true y_persist)"

text \<open>The loop over the horizons: a horizon with \<open>split_idx + p + h \<ge> n\<close> is skipped,
  the record of any other horizon is stored under its key.\<close>

fun static_loop ::
  "nat \<Rightarrow> int \<Rightarrow> nat \<Rightarrow> (nat \<Rightarrow> error + skill_record) \<Rightarrow> nat list
     \<Rightarrow> (nat, skill_record) dict \<Rightarrow> error + (nat, skill_record) dict" where
  "static_loop n split_idx p sample [] results = Inr results"
| "static_loop n split_idx p sample (h # hs) results =
     (if split_idx + int p + int h \<ge> int n then static_loop n split_idx p sample hs results
      else case sample h of
             Inl e \<Rightarrow> Inl e
           | Inr r \<Rightarrow> static_loop n split_idx p sample hs (AList.update h r results))"

text \<open>
  The split index (line 65) is \<^verbatim>\<open>int(n * train_frac)\<close>: the length is converted to a
  float, multiplied by the fraction \<^emph>\<open>in float arithmetic\<close>, and the product is
  truncated. The float product of two numbers is the exact product rounded to the
  nearest float, which can lie on the other side of an integer (for the float nearest
  to 0.7 and \<open>n = 10\<close> the exact product is below 7 and the float product is 7). The
  model takes the float product as the parameter \<open>float_mul\<close> and assumes nothing of it.
\<close>

definition split_index :: "(real \<Rightarrow> real \<Rightarrow> real) \<Rightarrow> real list \<Rightarrow> real \<Rightarrow> int" where
  "split_index float_mul y train_frac = py_int (float_mul (real (length y)) train_frac)"

text \<open>The training values (lines 64 to 71): the series is smoothed as a whole, then cut
  at the split index.\<close>

definition static_train :: "(real \<Rightarrow> real \<Rightarrow> real) \<Rightarrow> real list \<Rightarrow> real \<Rightarrow> real list" where
  "static_train float_mul y train_frac =
     (let split_idx = split_index float_mul y train_frac;
          y_rolled = rolling_mean 24 y
      in slice_to y_rolled split_idx)"

definition static_leaky_protocol ::
  "('s, 'm) sklearn \<Rightarrow> (real \<Rightarrow> real \<Rightarrow> real) \<Rightarrow> real list \<Rightarrow> real \<Rightarrow> nat list \<Rightarrow> nat
     \<Rightarrow> error + (nat, skill_record) dict" where
  "static_leaky_protocol lib float_mul y train_frac horizons p =
     (let n = length y;
          split_idx = split_index float_mul y train_frac;
          y_rolled = rolling_mean 24 y;
          y_train = static_train float_mul y train_frac
      in case fit_ar lib p y_train of
           Inl e \<Rightarrow> Inl e
         | Inr (scaler, model) \<Rightarrow>
             static_loop n split_idx p
               (static_sample lib y split_idx p y_rolled scaler model) horizons [])"

section \<open>The rolling-origin protocol\<close>

text \<open>The lists collected per horizon: \<^verbatim>\<open>{'rmse': [], 'skill': []}\<close>.\<close>

record sample_lists =
  rmses :: "real list"
  skills :: "real list"

text \<open>
  The body of the loop over the horizons, after the guard
  (lines 163 to 179 of \<^verbatim>\<open>rolling_origin_causal_protocol\<close>): the window is
  \<^verbatim>\<open>y_rolled_train.iloc[-p:]\<close>, the truth is \<^verbatim>\<open>y.iloc[origin + h - 1]\<close>, the
  persistence value is \<^verbatim>\<open>y.iloc[origin - 1]\<close>.
\<close>

definition rolling_sample ::
  "('s, 'm) sklearn \<Rightarrow> real list \<Rightarrow> nat \<Rightarrow> real list \<Rightarrow> 's \<Rightarrow> 'm \<Rightarrow> int \<Rightarrow> nat
     \<Rightarrow> error + skill_record" where
  "rolling_sample lib y p y_rolled_train scaler model origin h =
     (case forecast lib scaler model (last_p y_rolled_train p) of
        Inl e \<Rightarrow> Inl e | Inr y_pred \<Rightarrow>
      case iloc y (origin + int h - 1) of Inl e \<Rightarrow> Inl e | Inr y_true \<Rightarrow>
      case iloc y (origin - 1) of Inl e \<Rightarrow> Inl e | Inr y_persist \<Rightarrow>
      score y_pred y_true y_persist)"

text \<open>The loop over the horizons at one origin: a horizon with \<open>origin + h \<ge> n\<close> is
  skipped; for any other the two values of the sample are appended to the lists of
  that horizon.\<close>

fun horizon_loop ::
  "nat \<Rightarrow> int \<Rightarrow> (nat \<Rightarrow> error + skill_record) \<Rightarrow> nat list
     \<Rightarrow> (nat, sample_lists) dict \<Rightarrow> error + (nat, sample_lists) dict" where
  "horizon_loop n origin sample [] results = Inr results"
| "horizon_loop n origin sample (h # hs) results =
     (if origin + int h \<ge> int n then horizon_loop n origin sample hs results
      else case sample h of
             Inl e \<Rightarrow> Inl e
           | Inr r \<Rightarrow>
               (case map_of results h of
                  None \<Rightarrow> Inl KeyError
                | Some ls \<Rightarrow>
                    horizon_loop n origin sample hs
                      (AList.update h
                         \<lparr>rmses = rmses ls @ [rmse r], skills = skills ls @ [skill r]\<rparr>
                         results)))"

text \<open>One pass of the loop over the origins (lines 136 to 182): the training data is
  \<^verbatim>\<open>y.iloc[:origin]\<close>, smoothed on its own. For an origin that is not negative the
  slice holds the values before the origin; for a negative origin it holds all but the
  last \<open>- origin\<close> values.\<close>

definition origin_step ::
  "('s, 'm) sklearn \<Rightarrow> real list \<Rightarrow> nat \<Rightarrow> nat list \<Rightarrow> int
     \<Rightarrow> (nat, sample_lists) dict \<Rightarrow> error + (nat, sample_lists) dict" where
  "origin_step lib y p horizons origin results =
     (let y_train = slice_to y origin;
          y_rolled_train = rolling_mean 24 y_train
      in case fit_ar lib p y_rolled_train of
           Inl e \<Rightarrow> Inl e
         | Inr (scaler, model) \<Rightarrow>
             horizon_loop (length y) origin
               (rolling_sample lib y p y_rolled_train scaler model origin) horizons results)"

fun origin_loop ::
  "(int \<Rightarrow> (nat, sample_lists) dict \<Rightarrow> error + (nat, sample_lists) dict) \<Rightarrow> int list
     \<Rightarrow> (nat, sample_lists) dict \<Rightarrow> error + (nat, sample_lists) dict" where
  "origin_loop body [] results = Inr results"
| "origin_loop body (origin # origins) results =
     (case body origin results of
        Inl e \<Rightarrow> Inl e
      | Inr results' \<Rightarrow> origin_loop body origins results')"

text \<open>The aggregation (lines 185 to 191): a horizon with an empty list gets no entry.\<close>

fun aggregate ::
  "(nat, sample_lists) dict \<Rightarrow> nat list \<Rightarrow> (nat, skill_record) dict
     \<Rightarrow> error + (nat, skill_record) dict" where
  "aggregate results [] summary = Inr summary"
| "aggregate results (h # hs) summary =
     (case map_of results h of
        None \<Rightarrow> Inl KeyError
      | Some ls \<Rightarrow>
          if length (rmses ls) > 0
          then aggregate results hs
                 (AList.update h \<lparr>rmse = np_mean (rmses ls), skill = np_mean (skills ls)\<rparr>
                    summary)
          else aggregate results hs summary)"

text \<open>The origins: \<^verbatim>\<open>range(W_min, n - max(horizons), step)\<close>.\<close>

definition origins_of :: "nat \<Rightarrow> nat list \<Rightarrow> int \<Rightarrow> int \<Rightarrow> error + int list" where
  "origins_of n horizons W_min step =
     (case py_max horizons of
        Inl e \<Rightarrow> Inl e
      | Inr m \<Rightarrow> py_range W_min (int n - int m) step)"

text \<open>The dictionary \<^verbatim>\<open>{h: {'rmse': [], 'skill': []} for h in horizons}\<close>.\<close>

definition empty_results :: "nat list \<Rightarrow> (nat, sample_lists) dict" where
  "empty_results horizons =
     fold (\<lambda>h. AList.update h \<lparr>rmses = [], skills = []\<rparr>) horizons []"

definition rolling_origin_causal_protocol ::
  "('s, 'm) sklearn \<Rightarrow> real list \<Rightarrow> nat list \<Rightarrow> int \<Rightarrow> int \<Rightarrow> nat
     \<Rightarrow> error + (nat, skill_record) dict" where
  "rolling_origin_causal_protocol lib y horizons W_min step p =
     (let results = empty_results horizons;
          n = length y
      in case origins_of n horizons W_min step of
           Inl e \<Rightarrow> Inl e
         | Inr origins \<Rightarrow>
            (case origin_loop (origin_step lib y p horizons) origins results of
               Inl e \<Rightarrow> Inl e
             | Inr results' \<Rightarrow> aggregate results' horizons []))"

text \<open>The forecast of the rolling protocol at an origin, as a function of the series:
  the fit of \<open>origin_step\<close> followed by the forecast of \<open>rolling_sample\<close>.\<close>

definition origin_forecast ::
  "('s, 'm) sklearn \<Rightarrow> real list \<Rightarrow> nat \<Rightarrow> int \<Rightarrow> error + real" where
  "origin_forecast lib y p origin =
     (let y_train = slice_to y origin;
          y_rolled_train = rolling_mean 24 y_train
      in case fit_ar lib p y_rolled_train of
           Inl e \<Rightarrow> Inl e
         | Inr (scaler, model) \<Rightarrow> forecast lib scaler model (last_p y_rolled_train p))"

text \<open>The sample of the rolling protocol at an origin and a horizon, as a function of
  the series: the fit of \<open>origin_step\<close> followed by the loop body.\<close>

definition origin_sample ::
  "('s, 'm) sklearn \<Rightarrow> real list \<Rightarrow> nat \<Rightarrow> int \<Rightarrow> nat \<Rightarrow> error + skill_record" where
  "origin_sample lib y p origin h =
     (let y_train = slice_to y origin;
          y_rolled_train = rolling_mean 24 y_train
      in case fit_ar lib p y_rolled_train of
           Inl e \<Rightarrow> Inl e
         | Inr (scaler, model) \<Rightarrow>
             rolling_sample lib y p y_rolled_train scaler model origin h)"

text \<open>Two notions used to describe the lists that the loops build: the occurrences of
  a horizon in the horizon list that pass the guard at an origin, and a pair of lists
  extended by the values of some samples.\<close>

definition passes :: "nat \<Rightarrow> int \<Rightarrow> nat list \<Rightarrow> nat \<Rightarrow> nat list" where
  "passes n origin hs h = filter (\<lambda>h'. h' = h \<and> origin + int h' < int n) hs"

definition extend :: "sample_lists \<Rightarrow> skill_record list \<Rightarrow> sample_lists" where
  "extend ls rs = \<lparr>rmses = rmses ls @ map rmse rs, skills = skills ls @ map skill rs\<rparr>"

section \<open>An instance of the estimators\<close>

text \<open>
  A small implementation of the five operations, used to run the protocols on
  concrete series: the scaler centres on the mean and leaves the scale at 1, the
  regressor has all coefficients zero and the mean of the targets as intercept (the
  limit of strong regularisation). Like the library, it rejects empty inputs and a
  row whose width is not the fitted one.
\<close>

definition centre_fit :: "real list \<Rightarrow> error + real" where
  "centre_fit xs = (if xs = [] then Inl ValueError else Inr (np_mean xs))"

definition centre_transform :: "real \<Rightarrow> real list \<Rightarrow> error + real list" where
  "centre_transform mu xs =
     (if xs = [] then Inl ValueError else Inr (map (\<lambda>x. x - mu) xs))"

definition centre_inverse :: "real \<Rightarrow> real \<Rightarrow> error + real" where
  "centre_inverse mu x = Inr (x + mu)"

definition flat_fit :: "real list list \<Rightarrow> real list \<Rightarrow> error + (nat \<times> real)" where
  "flat_fit X t =
     (case X of [] \<Rightarrow> Inl ValueError | row # _ \<Rightarrow> Inr (length row, np_mean t))"

definition flat_predict :: "nat \<times> real \<Rightarrow> real list \<Rightarrow> error + real" where
  "flat_predict m row = (if length row \<noteq> fst m then Inl ValueError else Inr (snd m))"

definition flat_sklearn :: "(real, nat \<times> real) sklearn" where
  "flat_sklearn =
     \<lparr>scaler_fit = centre_fit, scaler_transform = centre_transform,
      scaler_inverse_transform = centre_inverse,
      ridge_fit = flat_fit, ridge_predict = flat_predict\<rparr>"

section \<open>The predictability limit\<close>

text \<open>
  \<^verbatim>\<open>
  def compute_hstar(results, threshold=0.0):
      horizons = sorted(results.keys())
      for h in reversed(horizons):
          if results[h]['skill'] > threshold:
              return h
      return 0
  \<close>
  The loop is \<open>hstar_scan\<close>; a key that is looked up and missing would raise KeyError.
\<close>

fun hstar_scan :: "(nat, skill_record) dict \<Rightarrow> real \<Rightarrow> nat list \<Rightarrow> error + nat" where
  "hstar_scan results threshold [] = Inr 0"
| "hstar_scan results threshold (h # hs) =
     (case map_of results h of
        None \<Rightarrow> Inl KeyError
      | Some r \<Rightarrow> if skill r > threshold then Inr h else hstar_scan results threshold hs)"

definition compute_hstar :: "(nat, skill_record) dict \<Rightarrow> real \<Rightarrow> error + nat" where
  "compute_hstar results threshold =
     (let horizons = sort (map fst results)
      in hstar_scan results threshold (rev horizons))"

text \<open>The horizons of a record whose skill is strictly above the threshold.\<close>

definition skilful :: "(nat, skill_record) dict \<Rightarrow> real \<Rightarrow> nat set" where
  "skilful results threshold =
     {h. \<exists>r. map_of results h = Some r \<and> threshold < skill r}"

section \<open>Properties of the predictability limit\<close>

lemma skilful_subset: "skilful results t \<subseteq> fst ` set results"
  by (auto simp: skilful_def dest: map_of_SomeD intro: rev_image_eqI)

lemma finite_skilful: "finite (skilful results t)"
  by (rule finite_subset [OF skilful_subset]) simp

lemma skilful_antimono: "t1 \<le> t2 \<Longrightarrow> skilful results t2 \<subseteq> skilful results t1"
  by (auto simp: skilful_def)

text \<open>Scanning a list of keys of the record in descending order finds the largest
  skilful key of the list, and 0 when the list has none.\<close>

lemma hstar_scan_desc:
  assumes "set hs \<subseteq> fst ` set results" and "sorted (rev hs)"
  shows "hstar_scan results t hs =
           Inr (if set hs \<inter> skilful results t = {} then 0
                else Max (set hs \<inter> skilful results t))"
  using assms
proof (induction hs)
  case Nil
  then show ?case by simp
next
  case (Cons h hs)
  from Cons.prems(1) obtain r where r: "map_of results h = Some r"
    by (cases "map_of results h") (auto simp: map_of_eq_None_iff)
  from Cons.prems(2) have above: "\<forall>x\<in>set hs. x \<le> h" and srt: "sorted (rev hs)"
    by (auto simp: sorted_append)
  show ?case
  proof (cases "t < skill r")
    case True
    then have hin: "h \<in> skilful results t"
      using r by (auto simp: skilful_def)
    have "Max (set (h # hs) \<inter> skilful results t) = h"
    proof (rule Max_eqI)
      show "finite (set (h # hs) \<inter> skilful results t)" by simp
      show "\<And>y. y \<in> set (h # hs) \<inter> skilful results t \<Longrightarrow> y \<le> h"
        using above by auto
      show "h \<in> set (h # hs) \<inter> skilful results t" using hin by simp
    qed
    moreover have "set (h # hs) \<inter> skilful results t \<noteq> {}" using hin by auto
    moreover have "hstar_scan results t (h # hs) = Inr h" using r True by simp
    ultimately show ?thesis by (simp only: if_False)
  next
    case False
    then have hout: "h \<notin> skilful results t"
      using r by (auto simp: skilful_def)
    then have same: "set (h # hs) \<inter> skilful results t = set hs \<inter> skilful results t"
      by auto
    have "hstar_scan results t (h # hs) = hstar_scan results t hs"
      using r False by simp
    also have "\<dots> = Inr (if set hs \<inter> skilful results t = {} then 0
                else Max (set hs \<inter> skilful results t))"
      using Cons.IH Cons.prems(1) srt by simp
    finally show ?thesis unfolding same .
  qed
qed

lemma compute_hstar_eq:
  "compute_hstar results t =
     Inr (if skilful results t = {} then 0 else Max (skilful results t))"
proof -
  let ?ks = "rev (sort (map fst results))"
  have "set ?ks \<inter> skilful results t = skilful results t"
    using skilful_subset [of results t] by auto
  moreover have "hstar_scan results t ?ks =
      Inr (if set ?ks \<inter> skilful results t = {} then 0
           else Max (set ?ks \<inter> skilful results t))"
    by (rule hstar_scan_desc) simp_all
  ultimately show ?thesis by (simp add: compute_hstar_def)
qed

text \<open>
  Claim C3. For every record and every threshold, \<open>compute_hstar\<close> returns (it never
  raises) the largest horizon of the record whose skill is strictly greater than the
  threshold, and 0 when no horizon of the record has such a skill; the empty record is
  an instance of the second case.
\<close>

theorem compute_hstar_largest:
  "(skilful results threshold \<noteq> {} \<longrightarrow>
      compute_hstar results threshold = Inr (Max (skilful results threshold)) \<and>
      Max (skilful results threshold) \<in> skilful results threshold \<and>
      (\<forall>h\<in>skilful results threshold. h \<le> Max (skilful results threshold))) \<and>
   (skilful results threshold = {} \<longrightarrow> compute_hstar results threshold = Inr 0) \<and>
   compute_hstar [] threshold = Inr 0"
proof -
  have "compute_hstar [] threshold = Inr 0"
    by (simp add: compute_hstar_def)
  moreover have "skilful results threshold \<noteq> {} \<Longrightarrow>
      Max (skilful results threshold) \<in> skilful results threshold"
    by (rule Max_in [OF finite_skilful])
  moreover have "\<And>h. h \<in> skilful results threshold \<Longrightarrow> h \<le> Max (skilful results threshold)"
    by (rule Max_ge [OF finite_skilful])
  ultimately show ?thesis
    by (simp add: compute_hstar_eq)
qed

theorem compute_hstar_largest_witness:
  "skilful [(1, \<lparr>rmse = 2, skill = 1/2\<rparr>), (6, \<lparr>rmse = 3, skill = 1/4\<rparr>),
            (12, \<lparr>rmse = 4, skill = -1\<rparr>)] 0 = {1, 6} \<and>
   compute_hstar [(1, \<lparr>rmse = 2, skill = 1/2\<rparr>), (6, \<lparr>rmse = 3, skill = 1/4\<rparr>),
            (12, \<lparr>rmse = 4, skill = -1\<rparr>)] 0 = Inr 6 \<and>
   skilful [(1, \<lparr>rmse = 2, skill = 0\<rparr>)] 0 = {} \<and>
   compute_hstar [(1, \<lparr>rmse = 2, skill = 0\<rparr>)] 0 = Inr 0"
proof -
  let ?r = "[(1, \<lparr>rmse = 2, skill = 1/2\<rparr>), (6, \<lparr>rmse = 3, skill = 1/4\<rparr>),
            (12::nat, \<lparr>rmse = 4, skill = -1\<rparr>)]"
  let ?z = "[(1::nat, \<lparr>rmse = 2, skill = 0\<rparr>)]"
  have a: "skilful ?r 0 = {1, 6}"
    by (auto simp: skilful_def split: if_splits)
  have b: "skilful ?z 0 = {}"
    by (auto simp: skilful_def split: if_splits)
  from a have "compute_hstar ?r 0 = Inr 6"
    using compute_hstar_largest [of ?r 0] by simp
  moreover from b have "compute_hstar ?z 0 = Inr 0"
    using compute_hstar_largest [of ?z 0] by simp
  ultimately show ?thesis using a b by simp
qed

text \<open>
  Claim C8. For a fixed record and thresholds \<open>t1 \<le> t2\<close>, the limit computed with the
  higher threshold is at most the limit computed with the lower one: both calls return,
  and raising the threshold never increases the result.
\<close>

theorem compute_hstar_antimono:
  assumes "t1 \<le> t2"
  shows "\<exists>a b. compute_hstar results t2 = Inr a \<and> compute_hstar results t1 = Inr b \<and> a \<le> b"
proof (cases "skilful results t2 = {}")
  case True
  then show ?thesis by (simp add: compute_hstar_eq)
next
  case False
  have sub: "skilful results t2 \<subseteq> skilful results t1"
    by (rule skilful_antimono [OF assms])
  with False have ne1: "skilful results t1 \<noteq> {}" by auto
  have "Max (skilful results t2) \<le> Max (skilful results t1)"
    by (rule Max_mono [OF sub False finite_skilful])
  with False ne1 show ?thesis by (simp add: compute_hstar_eq)
qed

theorem compute_hstar_antimono_witness:
  "(0::real) \<le> 1/3 \<and>
   compute_hstar [(1, \<lparr>rmse = 2, skill = 1/2\<rparr>), (6, \<lparr>rmse = 3, skill = 1/4\<rparr>)] (1/3) = Inr 1 \<and>
   compute_hstar [(1, \<lparr>rmse = 2, skill = 1/2\<rparr>), (6, \<lparr>rmse = 3, skill = 1/4\<rparr>)] 0 = Inr 6"
proof -
  let ?r = "[(1::nat, \<lparr>rmse = 2, skill = 1/2\<rparr>), (6, \<lparr>rmse = 3, skill = 1/4\<rparr>)]"
  have le: "(0::real) \<le> 1/3" by simp
  have a: "compute_hstar ?r (1/3) = Inr 1"
    by (simp add: compute_hstar_def)
  have b: "compute_hstar ?r 0 = Inr 6"
    by (simp add: compute_hstar_def)
  from compute_hstar_antimono [OF le, of ?r] a b le show ?thesis by simp
qed

section \<open>Evaluation of the score\<close>

text \<open>The square root of a square is the absolute value; with this equation every
  definition above can be evaluated on rational inputs.\<close>

lemma score_code [code]:
  "score y_pred y_true y_persist =
     (let err_model = (y_pred - y_true)\<^sup>2;
          err_persist = (y_persist - y_true)\<^sup>2
      in case skill_score err_model err_persist of
           Inl e \<Rightarrow> Inl e
         | Inr s \<Rightarrow> Inr \<lparr>rmse = \<bar>y_pred - y_true\<bar>, skill = s\<rparr>)"
  by (simp add: score_def Let_def split: sum.split)

section \<open>What the smoothed training values depend on\<close>

lemma take_upt_min: "take k [0..<n] = [0..<min k n]"
proof (cases "k \<le> n")
  case True
  then show ?thesis using take_upt [of 0 k n] by (simp add: min_def)
next
  case False
  then show ?thesis by (simp add: min_def)
qed

text \<open>The rolling mean is a trailing mean: its first \<open>k\<close> values are the rolling
  mean of the first \<open>k\<close> values of the series.\<close>

lemma take_rolling_mean: "take k (rolling_mean w ys) = rolling_mean w (take k ys)"
proof -
  have "take k (rolling_mean w ys) =
          map (\<lambda>i. np_mean (drop (Suc i - w) (take (Suc i) ys))) [0..<min k (length ys)]"
    by (simp add: rolling_mean_def take_map take_upt_min)
  also have "\<dots> = map (\<lambda>i. np_mean (drop (Suc i - w) (take (Suc i) (take k ys))))
                      [0..<min k (length ys)]"
    by (rule map_cong) (auto simp: min_def split: if_splits)
  also have "\<dots> = rolling_mean w (take k ys)"
    by (simp add: rolling_mean_def min.commute)
  finally show ?thesis .
qed

lemma agree_take:
  assumes "length y' = length y" and "\<forall>i<k. i < length y \<longrightarrow> y' ! i = y ! i"
  shows "take k y' = take k y"
  using assms by (intro nth_equalityI) auto

text \<open>
  Claim C2 says that some perturbation of a value of the test region (an index at or
  after the split index) changes the smoothed training values. The code does not do
  that: the training values \<open>static_train\<close> are the same for any two series of one
  length that agree before the split index, whatever their values from the split
  index on. The rolling mean of line 68 looks backwards only, so smoothing the whole
  series before the cut gives the values that smoothing the training part alone gives.
\<close>

theorem static_train_blind:
  assumes "length y' = length y"
    and "\<forall>i < slice_bound (length y) (split_index float_mul y train_frac). y' ! i = y ! i"
  shows "static_train float_mul y' train_frac = static_train float_mul y train_frac"
proof -
  let ?k = "slice_bound (length y) (split_index float_mul y train_frac)"
  have k: "split_index float_mul y' train_frac = split_index float_mul y train_frac"
    using assms(1) by (simp add: split_index_def)
  have "take ?k y' = take ?k y"
    using assms by (intro agree_take) auto
  then have "rolling_mean 24 (take ?k y') = rolling_mean 24 (take ?k y)" by simp
  then have "take ?k (rolling_mean 24 y') = take ?k (rolling_mean 24 y)"
    by (simp only: take_rolling_mean)
  moreover have "length (rolling_mean 24 y') = length y" "length (rolling_mean 24 y) = length y"
    using assms(1) by (simp_all add: rolling_mean_def)
  ultimately show ?thesis
    by (simp add: static_train_def slice_to_def k Let_def)
qed

theorem static_train_blind_witness:
  "length [1, 2, 4, 8, 16, 32, 1000, 128 :: real] = length [1, 2, 4, 8, 16, 32, 64, 128 :: real] \<and>
   slice_bound 8 (split_index (*) [1, 2, 4, 8, 16, 32, 64, 128] (1/2)) = 4 \<and>
   [1, 2, 4, 8, 16, 32, 1000, 128 :: real] ! 6 \<noteq> [1, 2, 4, 8, 16, 32, 64, 128] ! 6 \<and>
   static_train (*) [1, 2, 4, 8, 16, 32, 1000, 128] (1/2) =
     static_train (*) [1, 2, 4, 8, 16, 32, 64, 128] (1/2) \<and>
   static_train (*) [1, 2, 4, 8, 16, 32, 64, 128] (1/2) = [1, 3/2, 7/3, 15/4]"
proof -
  let ?y = "[1, 2, 4, 8, 16, 32, 64, 128 :: real]"
  let ?y' = "[1, 2, 4, 8, 16, 32, 1000, 128 :: real]"
  have len: "length ?y' = length ?y" by simp
  have k: "slice_bound 8 (split_index (*) ?y (1/2)) = 4" by code_simp
  have agree: "\<forall>i < slice_bound (length ?y) (split_index (*) ?y (1/2)). ?y' ! i = ?y ! i"
  proof (intro allI impI)
    fix i
    assume "i < slice_bound (length ?y) (split_index (*) ?y (1/2))"
    moreover have "length ?y = 8" by simp
    ultimately have "i < 4" using k by (simp only:)
    then consider "i = 0" | "i = 1" | "i = 2" | "i = 3" by linarith
    then show "?y' ! i = ?y ! i" by cases simp_all
  qed
  have differ: "?y' ! 6 \<noteq> ?y ! 6" by simp
  have val: "static_train (*) ?y (1/2) = [1, 3/2, 7/3, 15/4]" by code_simp
  from static_train_blind [OF len agree] len k differ val show ?thesis by simp
qed

section \<open>Causality of the rolling-origin forecast\<close>


text \<open>The sample that the protocol computes at an origin scores the forecast
  \<open>origin_forecast\<close> of that origin against two values of the series.\<close>

lemma origin_sample_forecast:
  "origin_sample lib y p origin h =
     (case origin_forecast lib y p origin of
        Inl e \<Rightarrow> Inl e
      | Inr y_pred \<Rightarrow>
          (case iloc y (origin + int h - 1) of
             Inl e \<Rightarrow> Inl e
           | Inr y_true \<Rightarrow>
               (case iloc y (origin - 1) of
                  Inl e \<Rightarrow> Inl e
                | Inr y_persist \<Rightarrow> score y_pred y_true y_persist)))"
  by (simp add: origin_sample_def origin_forecast_def rolling_sample_def Let_def
           split: sum.split prod.split)




section \<open>The rolling-origin protocol with no origin\<close>

lemma py_max_eq: "horizons \<noteq> [] \<Longrightarrow> py_max horizons = Inr (Max (set horizons))"
  by (cases horizons) (simp_all add: py_max_def Max.set_eq_fold del: set_simps)

lemma py_range_empty: "0 < step \<Longrightarrow> stop \<le> start \<Longrightarrow> py_range start stop step = Inr []"
  by (simp add: py_range_def range_len_def)

lemma map_of_fold_update:
  "map_of (fold (\<lambda>h. AList.update h v) hs al) h = (if h \<in> set hs then Some v else map_of al h)"
  by (induction hs arbitrary: al) (auto simp: update_conv')

lemma map_of_empty_results:
  "map_of (empty_results horizons) h =
     (if h \<in> set horizons then Some \<lparr>rmses = [], skills = []\<rparr> else None)"
  by (simp add: empty_results_def map_of_fold_update)

lemma aggregate_no_samples:
  "\<forall>h\<in>set hs. \<exists>ls. map_of results h = Some ls \<and> rmses ls = [] \<Longrightarrow>
     aggregate results hs summary = Inr summary"
  by (induction hs arbitrary: summary) auto

text \<open>
  Claim C5 says that for every warm-up, step and horizon set with
  \<open>W_min \<ge> n - max horizons\<close> the protocol returns the empty mapping without
  raising. With a step of 0 it raises: \<^verbatim>\<open>range(W_min, n - max(horizons), 0)\<close> is a
  ValueError, whatever the bounds.
\<close>

theorem rolling_zero_step_counterexample:
  "(5::int) \<ge> int (length [1, 2, 3 :: real]) - int (Max (set [1, 6])) \<and>
   origins_of (length [1, 2, 3 :: real]) [1, 6] 5 0 = Inl ValueError \<and>
   rolling_origin_causal_protocol flat_sklearn [1, 2, 3] [1, 6] 5 0 24 = Inl ValueError"
proof -
  have "(5::int) \<ge> int (length [1, 2, 3 :: real]) - int (Max (set [1, 6]))" by simp
  moreover have "origins_of (length [1, 2, 3 :: real]) [1, 6] 5 0 = Inl ValueError"
    by code_simp
  moreover have "rolling_origin_causal_protocol flat_sklearn [1, 2, 3] [1, 6] 5 0 24 = Inl ValueError"
    by code_simp
  ultimately show ?thesis by simp
qed

text \<open>
  Claim C5, amended. For every series, every non-empty horizon list, every warm-up
  and every step of at least 1: if \<open>W_min \<ge> n - max horizons\<close>, the origin sequence
  is empty, the protocol returns the empty mapping without raising, whatever the
  estimators and the lag order, and \<open>compute_hstar\<close> of that result returns 0 for
  every threshold.
\<close>

theorem rolling_empty_result:
  assumes "horizons \<noteq> []" and "0 < step"
    and "W_min \<ge> int (length y) - int (Max (set horizons))"
  shows "origins_of (length y) horizons W_min step = Inr [] \<and>
         rolling_origin_causal_protocol lib y horizons W_min step p = Inr [] \<and>
         compute_hstar [] threshold = Inr 0"
proof -
  have org: "origins_of (length y) horizons W_min step = Inr []"
    using assms by (simp add: origins_of_def py_max_eq py_range_empty)
  have "aggregate (empty_results horizons) horizons [] = Inr []"
    by (rule aggregate_no_samples) (simp add: map_of_empty_results)
  then have "rolling_origin_causal_protocol lib y horizons W_min step p = Inr []"
    using org by (simp add: rolling_origin_causal_protocol_def)
  moreover have "compute_hstar [] threshold = Inr 0"
    by (simp add: compute_hstar_def)
  ultimately show ?thesis using org by simp
qed

theorem rolling_empty_result_witness:
  "[1, 6] \<noteq> ([] :: nat list) \<and> (0::int) < 2 \<and>
   (5::int) \<ge> int (length [1, 2, 3 :: real]) - int (Max (set [1, 6])) \<and>
   origins_of (length [1, 2, 3 :: real]) [1, 6] 5 2 = Inr [] \<and>
   rolling_origin_causal_protocol flat_sklearn [1, 2, 3] [1, 6] 5 2 24 = Inr [] \<and>
   compute_hstar [] 0 = Inr 0"
proof -
  have a: "[1, 6] \<noteq> ([] :: nat list)" by simp
  have b: "(0::int) < 2" by simp
  have c: "(5::int) \<ge> int (length [1, 2, 3 :: real]) - int (Max (set [1, 6]))" by simp
  from rolling_empty_result [OF a b c, of flat_sklearn 24 0] a b c show ?thesis by simp
qed

section \<open>The skill score\<close>

text \<open>Scoring never fails, and gives these two values.\<close>

lemma score_total:
  "score y_pred y_true y_persist =
     Inr \<lparr>rmse = sqrt ((y_pred - y_true)\<^sup>2),
          skill = (if (y_persist - y_true)\<^sup>2 > 0
                   then 1 - (y_pred - y_true)\<^sup>2 / (y_persist - y_true)\<^sup>2 else 0)\<rparr>"
  by (simp add: score_def skill_score_def fdiv_def Let_def)

text \<open>
  Claim C4. The skill score is \<open>1 - err_model / err_persist\<close> when the persistence
  error is strictly positive and 0 when it is 0, and computing it never raises a
  division by zero (the division is reached with a positive divisor only). Every
  sample that either protocol evaluates carries that score, computed from the squared
  errors of the forecast and of the persistence value against the true value.
\<close>

theorem skill_policy:
  "(0 < err_persist \<longrightarrow> skill_score err_model err_persist = Inr (1 - err_model / err_persist)) \<and>
   (err_persist = 0 \<longrightarrow> skill_score err_model err_persist = Inr 0) \<and>
   skill_score err_model err_persist \<noteq> Inl ZeroDivisionError \<and>
   (static_sample lib y split_idx p y_rolled scaler model h = Inr r \<longrightarrow>
      (\<exists>y_pred y_true y_persist.
          forecast lib scaler model (slice y_rolled split_idx (split_idx + int p)) = Inr y_pred \<and>
          iloc (slice_from y split_idx) (int h - 1) = Inr y_true \<and>
          iloc y (split_idx - 1) = Inr y_persist \<and>
          skill_score ((y_pred - y_true)\<^sup>2) ((y_persist - y_true)\<^sup>2) = Inr (skill r))) \<and>
   (rolling_sample lib y p y_rolled_train scaler model origin h = Inr r' \<longrightarrow>
      (\<exists>y_pred y_true y_persist.
          forecast lib scaler model (last_p y_rolled_train p) = Inr y_pred \<and>
          iloc y (origin + int h - 1) = Inr y_true \<and>
          iloc y (origin - 1) = Inr y_persist \<and>
          skill_score ((y_pred - y_true)\<^sup>2) ((y_persist - y_true)\<^sup>2) = Inr (skill r')))"
proof -
  have a: "0 < err_persist \<longrightarrow> skill_score err_model err_persist = Inr (1 - err_model / err_persist)"
    by (simp add: skill_score_def fdiv_def)
  have b: "err_persist = 0 \<longrightarrow> skill_score err_model err_persist = Inr 0"
    by (simp add: skill_score_def)
  have c: "skill_score err_model err_persist \<noteq> Inl ZeroDivisionError"
    by (simp add: skill_score_def fdiv_def)
  have d: "static_sample lib y split_idx p y_rolled scaler model h = Inr r \<longrightarrow>
      (\<exists>y_pred y_true y_persist.
          forecast lib scaler model (slice y_rolled split_idx (split_idx + int p)) = Inr y_pred \<and>
          iloc (slice_from y split_idx) (int h - 1) = Inr y_true \<and>
          iloc y (split_idx - 1) = Inr y_persist \<and>
          skill_score ((y_pred - y_true)\<^sup>2) ((y_persist - y_true)\<^sup>2) = Inr (skill r))"
    by (auto simp: static_sample_def score_def Let_def split: sum.splits)
  have e: "rolling_sample lib y p y_rolled_train scaler model origin h = Inr r' \<longrightarrow>
      (\<exists>y_pred y_true y_persist.
          forecast lib scaler model (last_p y_rolled_train p) = Inr y_pred \<and>
          iloc y (origin + int h - 1) = Inr y_true \<and>
          iloc y (origin - 1) = Inr y_persist \<and>
          skill_score ((y_pred - y_true)\<^sup>2) ((y_persist - y_true)\<^sup>2) = Inr (skill r'))"
    by (auto simp: rolling_sample_def score_def Let_def split: sum.splits)
  from a b c d e show ?thesis by blast
qed

theorem skill_policy_witness:
  "(0::real) < 1 \<and> skill_score 9 1 = Inr (- 8) \<and> skill_score 9 0 = Inr 0 \<and>
   static_sample flat_sklearn [1, 2, 3, 4, 5, 6, 7, 8] 4 1
       (rolling_mean 24 [1, 2, 3, 4, 5, 6, 7, 8]) (7/4) (1, 1/4) 1
     = Inr \<lparr>rmse = 3, skill = - 8\<rparr> \<and>
   rolling_sample flat_sklearn [1, 2, 3, 3, 5, 6, 7, 8] 1 (rolling_mean 24 [1, 2, 3]) 2
       (1, 1/4) 3 1
     = Inr \<lparr>rmse = 3/4, skill = 0\<rparr>"
proof -
  have pos: "(0::real) < 1" by simp
  have s: "static_sample flat_sklearn [1, 2, 3, 4, 5, 6, 7, 8] 4 1
       (rolling_mean 24 [1, 2, 3, 4, 5, 6, 7, 8]) (7/4) (1, 1/4) 1
     = Inr \<lparr>rmse = 3, skill = - 8\<rparr>" by code_simp
  have r: "rolling_sample flat_sklearn [1, 2, 3, 3, 5, 6, 7, 8] 1 (rolling_mean 24 [1, 2, 3]) 2
       (1, 1/4) 3 1
     = Inr \<lparr>rmse = 3/4, skill = 0\<rparr>" by code_simp
  note at_one = skill_policy [where err_persist = 1 and err_model = 9 and lib = flat_sklearn
      and y = "[1, 2, 3, 4, 5, 6, 7, 8]" and split_idx = 4 and p = 1
      and y_rolled = "rolling_mean 24 [1, 2, 3, 4, 5, 6, 7, 8]" and scaler = "7/4"
      and model = "(1, 1/4)" and h = 1 and r = "\<lparr>rmse = 3, skill = - 8\<rparr>"
      and y_rolled_train = "rolling_mean 24 [1, 2, 3]" and origin = 3
      and r' = "\<lparr>rmse = 3/4, skill = 0\<rparr>"]
  note at_zero = skill_policy [where err_persist = 0 and err_model = 9 and lib = flat_sklearn
      and y = "[1, 2, 3, 4, 5, 6, 7, 8]" and split_idx = 4 and p = 1
      and y_rolled = "rolling_mean 24 [1, 2, 3, 4, 5, 6, 7, 8]" and scaler = "7/4"
      and model = "(1, 1/4)" and h = 1 and r = "\<lparr>rmse = 3, skill = - 8\<rparr>"
      and y_rolled_train = "rolling_mean 24 [1, 2, 3]" and origin = 3
      and r' = "\<lparr>rmse = 3/4, skill = 0\<rparr>"]
  from at_one have "0 < (1::real) \<longrightarrow> skill_score 9 1 = Inr (1 - 9 / 1)" by (rule conjunct1)
  with pos have a: "skill_score 9 1 = Inr (- 8)" by simp
  from at_zero have "(0::real) = 0 \<longrightarrow> skill_score 9 0 = Inr 0"
    by (rule conjunct1 [OF conjunct2])
  then have b: "skill_score 9 0 = Inr 0" by simp
  from pos a b s r show ?thesis by simp
qed

section \<open>The result of the static protocol\<close>

lemma static_loop_result:
  assumes "\<forall>h\<in>set hs. split_idx + int p + int h < int n \<longrightarrow> sample h = Inr (f h)"
  shows "\<exists>res. static_loop n split_idx p sample hs results = Inr res \<and>
           fst ` set res = fst ` set results \<union> {h \<in> set hs. split_idx + int p + int h < int n} \<and>
           (\<forall>h. map_of res h =
                  (if h \<in> set hs \<and> split_idx + int p + int h < int n then Some (f h)
                   else map_of results h))"
  using assms
proof (induction hs arbitrary: results)
  case Nil
  then show ?case by simp
next
  case (Cons a hs)
  have rest: "\<forall>h\<in>set hs. split_idx + int p + int h < int n \<longrightarrow> sample h = Inr (f h)"
    using Cons.prems by simp
  show ?case
  proof (cases "split_idx + int p + int a < int n")
    case False
    from Cons.IH [OF rest, of results] obtain res where
      "static_loop n split_idx p sample hs results = Inr res"
      "fst ` set res = fst ` set results \<union> {h \<in> set hs. split_idx + int p + int h < int n}"
      "\<forall>h. map_of res h =
                  (if h \<in> set hs \<and> split_idx + int p + int h < int n then Some (f h)
                   else map_of results h)"
      by blast
    with False show ?thesis by auto
  next
    case True
    then have sa: "sample a = Inr (f a)" using Cons.prems by simp
    from Cons.IH [OF rest, of "AList.update a (f a) results"] obtain res where
      r1: "static_loop n split_idx p sample hs (AList.update a (f a) results) = Inr res" and
      r2: "fst ` set res = fst ` set (AList.update a (f a) results) \<union>
             {h \<in> set hs. split_idx + int p + int h < int n}" and
      r3: "\<forall>h. map_of res h =
                  (if h \<in> set hs \<and> split_idx + int p + int h < int n then Some (f h)
                   else map_of (AList.update a (f a) results) h)"
      by blast
    have "static_loop n split_idx p sample (a # hs) results = Inr res"
      using True sa r1 by simp
    moreover have "fst ` set res =
        fst ` set results \<union> {h \<in> set (a # hs). split_idx + int p + int h < int n}"
      using r2 True by (auto simp: dom_update)
    moreover have "\<forall>h. map_of res h =
        (if h \<in> set (a # hs) \<and> split_idx + int p + int h < int n then Some (f h)
         else map_of results h)"
      using r3 True by (auto simp: update_conv')
    ultimately show ?thesis by blast
  qed
qed

lemma iloc_nth: "0 \<le> i \<Longrightarrow> i < int (length xs) \<Longrightarrow> iloc xs i = Inr (xs ! nat i)"
  by (simp add: iloc_def Let_def)

lemma py_int_pos: "0 < py_int x \<Longrightarrow> py_int x = \<lfloor>x\<rfloor>"
  by (auto simp: py_int_def split: if_splits)

lemma static_sample_value:
  assumes pred: "forecast lib scaler model (slice y_rolled k (k + int p)) = Inr y_pred"
    and k: "0 < k" and h: "0 < h" and inside: "k + int p + int h < int (length y)"
  shows "static_sample lib y k p y_rolled scaler model h =
           score y_pred (y ! nat (k + int h - 1)) (y ! nat (k - 1))"
proof -
  have kb: "slice_bound (length y) k = nat k"
    using k inside by (simp add: slice_bound_def)
  have "iloc (slice_from y k) (int h - 1) = Inr (drop (nat k) y ! nat (int h - 1))"
    unfolding slice_from_def kb using k h inside by (intro iloc_nth) auto
  also have "drop (nat k) y ! nat (int h - 1) = y ! (nat k + nat (int h - 1))"
    using k h inside by (intro nth_drop) auto
  also have "nat k + nat (int h - 1) = nat (k + int h - 1)"
    using k h by auto
  finally have t: "iloc (slice_from y k) (int h - 1) = Inr (y ! nat (k + int h - 1))" .
  have ps: "iloc y (k - 1) = Inr (y ! nat (k - 1))"
    using k inside by (intro iloc_nth) auto
  show ?thesis by (simp add: static_sample_def pred t ps)
qed

text \<open>
  Claim C6. Let \<open>k\<close> be the split index and \<open>p\<close> the lag order, and let the
  estimators succeed on the training values and, when some horizon passes the guard, on
  the test window (the window is read inside the loop only). Then the static protocol
  returns a mapping whose keys are exactly the horizons \<open>h\<close> of the input with
  \<open>k + p + h < n\<close> (the others are left out, and nothing is raised for them: when no
  horizon passes, the mapping is empty), and the entry of such a horizon compares the
  forecast with the series value at index \<open>k + h - 1\<close> and with the persistence value,
  the series value at index \<open>k - 1\<close>. Horizons are positive and the training part is
  not empty (\<open>0 < k\<close>), and then \<open>k\<close> is the floor of the product \<open>n * train_frac\<close>
  as the program computes it, in float arithmetic.
\<close>

theorem static_result:
  fixes y :: "real list" and train_frac :: real and float_mul :: "real \<Rightarrow> real \<Rightarrow> real"
  defines "n \<equiv> length y"
  defines "k \<equiv> split_index float_mul y train_frac"
  assumes fit: "fit_ar lib p (static_train float_mul y train_frac) = Inr (scaler, model)"
    and pred: "(\<exists>h\<in>set horizons. k + int p + int h < int n) \<longrightarrow>
                 forecast lib scaler model (slice (rolling_mean 24 y) k (k + int p)) = Inr y_pred"
    and k: "0 < k"
    and hs: "\<forall>h\<in>set horizons. 0 < h"
  shows "k = \<lfloor>float_mul (real n) train_frac\<rfloor> \<and>
    (\<exists>res. static_leaky_protocol lib float_mul y train_frac horizons p = Inr res \<and>
       fst ` set res = {h \<in> set horizons. k + int p + int h < int n} \<and>
       (\<forall>h\<in>set horizons. k + int p + int h < int n \<longrightarrow>
          map_of res h =
            Some \<lparr>rmse = sqrt ((y_pred - y ! nat (k + int h - 1))\<^sup>2),
                  skill = (if (y ! nat (k - 1) - y ! nat (k + int h - 1))\<^sup>2 > 0
                           then 1 - (y_pred - y ! nat (k + int h - 1))\<^sup>2
                                      / (y ! nat (k - 1) - y ! nat (k + int h - 1))\<^sup>2
                           else 0)\<rparr>))"
proof -
  let ?sample = "static_sample lib y k p (rolling_mean 24 y) scaler model"
  let ?f = "\<lambda>h. \<lparr>rmse = sqrt ((y_pred - y ! nat (k + int h - 1))\<^sup>2),
                  skill = (if (y ! nat (k - 1) - y ! nat (k + int h - 1))\<^sup>2 > 0
                           then 1 - (y_pred - y ! nat (k + int h - 1))\<^sup>2
                                      / (y ! nat (k - 1) - y ! nat (k + int h - 1))\<^sup>2
                           else 0)\<rparr>"
  have floor: "k = \<lfloor>float_mul (real n) train_frac\<rfloor>"
    using k unfolding k_def n_def split_index_def by (rule py_int_pos)
  have "\<forall>h\<in>set horizons. k + int p + int h < int n \<longrightarrow> ?sample h = Inr (?f h)"
  proof (intro ballI impI)
    fix h assume h: "h \<in> set horizons" and inside: "k + int p + int h < int n"
    then have window: "forecast lib scaler model (slice (rolling_mean 24 y) k (k + int p)) = Inr y_pred"
      using pred by blast
    have "?sample h = score y_pred (y ! nat (k + int h - 1)) (y ! nat (k - 1))"
      using window k hs h inside unfolding n_def by (intro static_sample_value) auto
    then show "?sample h = Inr (?f h)" by (simp only: score_total)
  qed
  from static_loop_result [OF this, of "[]"] obtain res where
    r1: "static_loop n k p ?sample horizons [] = Inr res" and
    r2: "fst ` set res = {h \<in> set horizons. k + int p + int h < int n}" and
    r3: "\<forall>h. map_of res h =
           (if h \<in> set horizons \<and> k + int p + int h < int n then Some (?f h) else None)"
    by auto
  have "static_leaky_protocol lib float_mul y train_frac horizons p = Inr res"
    using fit r1 unfolding k_def n_def by (simp add: static_leaky_protocol_def Let_def)
  moreover have "fst ` set res = {h \<in> set horizons. k + int p + int h < int n}"
    using r2 by simp
  moreover have "\<forall>h\<in>set horizons. k + int p + int h < int n \<longrightarrow> map_of res h = Some (?f h)"
    using r3 by simp
  ultimately show ?thesis using floor by blast
qed

theorem static_result_witness:
  "fit_ar flat_sklearn 1 (static_train (*) [1, 2, 3, 4, 5, 6, 7, 8] (1/2)) = Inr (7/4, (1, 1/4)) \<and>
   forecast flat_sklearn (7/4) (1, 1/4)
      (slice (rolling_mean 24 [1, 2, 3, 4, 5, 6, 7, 8])
         (split_index (*) [1, 2, 3, 4, 5, 6, 7, 8] (1/2))
         (split_index (*) [1, 2, 3, 4, 5, 6, 7, 8] (1/2) + int 1)) = Inr 2 \<and>
   0 < split_index (*) [1, 2, 3, 4, 5, 6, 7, 8] (1/2) \<and>
   list_all (\<lambda>h. 0 < h) [1, 2, 3 :: nat] \<and>
   static_leaky_protocol flat_sklearn (*) [1, 2, 3, 4, 5, 6, 7, 8] (1/2) [1, 2, 3] 1 =
     Inr [(1, \<lparr>rmse = 3, skill = - 8\<rparr>), (2, \<lparr>rmse = 4, skill = - 3\<rparr>)] \<and>
   split_index (*) [1, 2, 3, 4, 5, 6, 7, 8] (1/2)
     = \<lfloor>real (length [1, 2, 3, 4, 5, 6, 7, 8 :: real]) * (1/2)\<rfloor> \<and>
   (\<exists>res. static_leaky_protocol flat_sklearn (*) [1, 2, 3, 4, 5, 6, 7, 8] (1/2) [1, 2, 3] 1 = Inr res \<and>
      fst ` set res =
        {h \<in> set [1, 2, 3].
           split_index (*) [1, 2, 3, 4, 5, 6, 7, 8] (1/2) + int 1 + int h
             < int (length [1, 2, 3, 4, 5, 6, 7, 8 :: real])})"
proof -
  let ?y = "[1, 2, 3, 4, 5, 6, 7, 8 :: real]"
  have fit: "fit_ar flat_sklearn 1 (static_train (*) ?y (1/2)) = Inr (7/4, (1, 1/4))"
    by code_simp
  have window: "forecast flat_sklearn (7/4) (1, 1/4)
      (slice (rolling_mean 24 ?y) (split_index (*) ?y (1/2)) (split_index (*) ?y (1/2) + int 1))
        = Inr 2"
    by code_simp
  then have pred: "(\<exists>h\<in>set [1, 2, 3]. split_index (*) ?y (1/2) + int 1 + int h < int (length ?y)) \<longrightarrow>
      forecast flat_sklearn (7/4) (1, 1/4)
      (slice (rolling_mean 24 ?y) (split_index (*) ?y (1/2)) (split_index (*) ?y (1/2) + int 1))
        = Inr 2"
    by (rule impI)
  have k: "0 < split_index (*) ?y (1/2)" by code_simp
  have hs: "\<forall>h\<in>set [1, 2, 3 :: nat]. 0 < h" by simp
  have run: "static_leaky_protocol flat_sklearn (*) ?y (1/2) [1, 2, 3] 1 =
     Inr [(1, \<lparr>rmse = 3, skill = - 8\<rparr>), (2, \<lparr>rmse = 4, skill = - 3\<rparr>)]"
    by code_simp
  note result = static_result [OF fit pred k hs]
  from result have fl: "split_index (*) ?y (1/2) = \<lfloor>real (length ?y) * (1/2)\<rfloor>"
    by (rule conjunct1)
  from result
  have "\<exists>res. static_leaky_protocol flat_sklearn (*) ?y (1/2) [1, 2, 3] 1 = Inr res \<and>
      fst ` set res =
        {h \<in> set [1, 2, 3]. split_index (*) ?y (1/2) + int 1 + int h < int (length ?y)}"
    by blast
  moreover have "list_all (\<lambda>h. 0 < h) [1, 2, 3 :: nat]" by simp
  ultimately show ?thesis using fit window k run fl by blast
qed

section \<open>The lists built by the rolling-origin protocol\<close>

lemma extend_Nil: "extend ls [] = ls"
  by (simp add: extend_def)

lemma extend_extend: "extend (extend ls a) b = extend ls (a @ b)"
  by (simp add: extend_def)

lemma key_lookup: "h \<in> fst ` set al \<Longrightarrow> \<exists>v. map_of al h = Some v"
  by (cases "map_of al h") (auto simp: map_of_eq_None_iff)

lemma horizon_loop_result:
  assumes "\<forall>h\<in>set hs. origin + int h < int n \<longrightarrow> sample h = Inr (f h)"
    and "set hs \<subseteq> fst ` set results"
  shows "\<exists>res. horizon_loop n origin sample hs results = Inr res \<and>
           fst ` set res = fst ` set results \<and>
           (\<forall>h ls. map_of results h = Some ls \<longrightarrow>
                map_of res h = Some (extend ls (map f (passes n origin hs h))))"
  using assms
proof (induction hs arbitrary: results)
  case Nil
  then show ?case by (simp add: passes_def extend_Nil)
next
  case (Cons a hs)
  have rest: "\<forall>h\<in>set hs. origin + int h < int n \<longrightarrow> sample h = Inr (f h)"
    using Cons.prems(1) by simp
  show ?case
  proof (cases "origin + int a < int n")
    case False
    have keys: "set hs \<subseteq> fst ` set results" using Cons.prems(2) by simp
    from Cons.IH [OF rest keys] obtain res where
      r1: "horizon_loop n origin sample hs results = Inr res" and
      r2: "fst ` set res = fst ` set results" and
      r3: "\<forall>h ls. map_of results h = Some ls \<longrightarrow>
                map_of res h = Some (extend ls (map f (passes n origin hs h)))"
      by blast
    have "passes n origin (a # hs) = passes n origin hs"
      using False by (auto simp: passes_def fun_eq_iff)
    with False r1 r2 r3 show ?thesis by auto
  next
    case True
    then have sa: "sample a = Inr (f a)" using Cons.prems(1) by simp
    from Cons.prems(2) obtain la where la: "map_of results a = Some la"
      using key_lookup [of a results] by auto
    let ?la' = "\<lparr>rmses = rmses la @ [rmse (f a)], skills = skills la @ [skill (f a)]\<rparr>"
    let ?results' = "AList.update a ?la' results"
    have la': "?la' = extend la [f a]" by (simp add: extend_def)
    have same_keys: "fst ` set ?results' = fst ` set results"
      using Cons.prems(2) by (auto simp: dom_update)
    then have keys: "set hs \<subseteq> fst ` set ?results'" using Cons.prems(2) by simp
    from Cons.IH [OF rest keys] obtain res where
      r1: "horizon_loop n origin sample hs ?results' = Inr res" and
      r2: "fst ` set res = fst ` set ?results'" and
      r3: "\<forall>h ls. map_of ?results' h = Some ls \<longrightarrow>
                map_of res h = Some (extend ls (map f (passes n origin hs h)))"
      by blast
    have step: "horizon_loop n origin sample (a # hs) results = Inr res"
      using True sa la r1 by simp
    have "\<forall>h ls. map_of results h = Some ls \<longrightarrow>
                map_of res h = Some (extend ls (map f (passes n origin (a # hs) h)))"
    proof (intro allI impI)
      fix h ls assume hl: "map_of results h = Some ls"
      show "map_of res h = Some (extend ls (map f (passes n origin (a # hs) h)))"
      proof (cases "h = a")
        case True
        then have "ls = la" using hl la by simp
        moreover have "map_of ?results' a = Some ?la'" by (simp add: update_conv')
        then have "map_of res a = Some (extend ?la' (map f (passes n origin hs a)))"
          using r3 by blast
        moreover have "passes n origin (a # hs) a = a # passes n origin hs a"
          using \<open>origin + int a < int n\<close> by (simp add: passes_def)
        ultimately show ?thesis using True by (simp add: la' extend_extend)
      next
        case False
        then have "map_of ?results' h = Some ls" using hl by (simp add: update_conv')
        then have "map_of res h = Some (extend ls (map f (passes n origin hs h)))"
          using r3 by blast
        moreover have "passes n origin (a # hs) h = passes n origin hs h"
          using False by (simp add: passes_def)
        ultimately show ?thesis by simp
      qed
    qed
    with step r2 same_keys show ?thesis by auto
  qed
qed

lemma origin_loop_result:
  assumes "\<forall>origin\<in>set os. \<forall>results. set horizons \<subseteq> fst ` set results \<longrightarrow>
             (\<exists>res. body origin results = Inr res \<and> fst ` set res = fst ` set results \<and>
                (\<forall>h ls. map_of results h = Some ls \<longrightarrow>
                    map_of res h = Some (extend ls (g origin h))))"
    and "set horizons \<subseteq> fst ` set results"
  shows "\<exists>res. origin_loop body os results = Inr res \<and>
           fst ` set res = fst ` set results \<and>
           (\<forall>h ls. map_of results h = Some ls \<longrightarrow>
                map_of res h = Some (extend ls (concat (map (\<lambda>origin. g origin h) os))))"
  using assms
proof (induction os arbitrary: results)
  case Nil
  then show ?case by (simp add: extend_Nil)
next
  case (Cons a os)
  have "\<exists>res. body a results = Inr res \<and> fst ` set res = fst ` set results \<and>
          (\<forall>h ls. map_of results h = Some ls \<longrightarrow> map_of res h = Some (extend ls (g a h)))"
    using Cons.prems by simp
  then obtain mid where
    m1: "body a results = Inr mid" and
    m2: "fst ` set mid = fst ` set results" and
    m3: "\<forall>h ls. map_of results h = Some ls \<longrightarrow> map_of mid h = Some (extend ls (g a h))"
    by blast
  have rest: "\<forall>origin\<in>set os. \<forall>results. set horizons \<subseteq> fst ` set results \<longrightarrow>
             (\<exists>res. body origin results = Inr res \<and> fst ` set res = fst ` set results \<and>
                (\<forall>h ls. map_of results h = Some ls \<longrightarrow>
                    map_of res h = Some (extend ls (g origin h))))"
    using Cons.prems(1) by simp
  have keys: "set horizons \<subseteq> fst ` set mid" using m2 Cons.prems(2) by simp
  from Cons.IH [OF rest keys] obtain res where
    r1: "origin_loop body os mid = Inr res" and
    r2: "fst ` set res = fst ` set mid" and
    r3: "\<forall>h ls. map_of mid h = Some ls \<longrightarrow>
            map_of res h = Some (extend ls (concat (map (\<lambda>origin. g origin h) os)))"
    by blast
  have "origin_loop body (a # os) results = Inr res" using m1 r1 by simp
  moreover have "fst ` set res = fst ` set results" using r2 m2 by simp
  moreover have "\<forall>h ls. map_of results h = Some ls \<longrightarrow>
       map_of res h = Some (extend ls (concat (map (\<lambda>origin. g origin h) (a # os))))"
    using m3 r3 by (auto simp: extend_extend)
  ultimately show ?case by blast
qed

lemma aggregate_result:
  assumes "\<forall>h\<in>set hs. map_of results h = Some (lst h)"
  shows "\<exists>s. aggregate results hs summary = Inr s \<and>
           (\<forall>h. map_of s h =
              (if h \<in> set hs \<and> rmses (lst h) \<noteq> []
               then Some \<lparr>rmse = np_mean (rmses (lst h)), skill = np_mean (skills (lst h))\<rparr>
               else map_of summary h))"
  using assms
proof (induction hs arbitrary: summary)
  case Nil
  then show ?case by simp
next
  case (Cons a hs)
  have la: "map_of results a = Some (lst a)" using Cons.prems by simp
  have rest: "\<forall>h\<in>set hs. map_of results h = Some (lst h)" using Cons.prems by simp
  show ?case
  proof (cases "rmses (lst a) = []")
    case True
    from Cons.IH [OF rest, of summary] obtain s where
      "aggregate results hs summary = Inr s"
      "\<forall>h. map_of s h =
              (if h \<in> set hs \<and> rmses (lst h) \<noteq> []
               then Some \<lparr>rmse = np_mean (rmses (lst h)), skill = np_mean (skills (lst h))\<rparr>
               else map_of summary h)"
      by blast
    with True la show ?thesis by auto
  next
    case False
    let ?summary' = "AList.update a
        \<lparr>rmse = np_mean (rmses (lst a)), skill = np_mean (skills (lst a))\<rparr> summary"
    from Cons.IH [OF rest, of ?summary'] obtain s where
      s1: "aggregate results hs ?summary' = Inr s" and
      s2: "\<forall>h. map_of s h =
              (if h \<in> set hs \<and> rmses (lst h) \<noteq> []
               then Some \<lparr>rmse = np_mean (rmses (lst h)), skill = np_mean (skills (lst h))\<rparr>
               else map_of ?summary' h)"
      by blast
    have "aggregate results (a # hs) summary = Inr s" using False la s1 by simp
    moreover have "\<forall>h. map_of s h =
              (if h \<in> set (a # hs) \<and> rmses (lst h) \<noteq> []
               then Some \<lparr>rmse = np_mean (rmses (lst h)), skill = np_mean (skills (lst h))\<rparr>
               else map_of summary h)"
      using s2 False by (auto simp: update_conv')
    ultimately show ?thesis by blast
  qed
qed

section \<open>The origins\<close>

text \<open>With a positive step every origin is below the stop, and there is an origin
  exactly when the start is below the stop.\<close>

lemma py_range_bound:
  assumes "py_range start stop step = Inr os" and "0 < step" and "origin \<in> set os"
  shows "origin < stop"
proof -
  from assms(1,2) have os: "os = map (\<lambda>i. start + int i * step) [0..<range_len start stop step]"
    by (auto simp: py_range_def split: if_splits)
  from assms(3) os obtain i where i: "i < range_len start stop step"
    and o: "origin = start + int i * step" by auto
  from i assms(2) have below: "start < stop"
    and "i < nat ((stop - start - 1) div step + 1)"
    by (auto simp: range_len_def split: if_splits)
  then have "int i \<le> (stop - start - 1) div step" by linarith
  then have "int i * step \<le> (stop - start - 1) div step * step"
    using assms(2) by (simp add: mult_right_mono)
  also have "\<dots> = (stop - start - 1) - (stop - start - 1) mod step"
    by (simp add: minus_mod_eq_div_mult)
  also have "\<dots> \<le> stop - start - 1"
    using assms(2) pos_mod_sign [of step "stop - start - 1"] by linarith
  finally show ?thesis using o by linarith
qed

lemma py_range_nonempty:
  assumes "py_range start stop step = Inr os" and "0 < step"
  shows "os \<noteq> [] \<longleftrightarrow> start < stop"
proof -
  from assms have os: "os = map (\<lambda>i. start + int i * step) [0..<range_len start stop step]"
    by (auto simp: py_range_def split: if_splits)
  have "0 \<le> (stop - start - 1) div step" if "start < stop"
    using that assms(2) by (simp add: pos_imp_zdiv_nonneg_iff)
  then have "0 < range_len start stop step \<longleftrightarrow> start < stop"
    using assms(2) by (auto simp: range_len_def)
  then show ?thesis using os by simp
qed

lemma origins_of_range:
  assumes "origins_of n horizons W_min step = Inr origins"
  shows "horizons \<noteq> []"
    and "py_range W_min (int n - int (Max (set horizons))) step = Inr origins"
proof -
  show ne: "horizons \<noteq> []"
    using assms by (auto simp: origins_of_def py_max_def)
  show "py_range W_min (int n - int (Max (set horizons))) step = Inr origins"
    using assms py_max_eq [OF ne] by (simp add: origins_of_def)
qed

lemma origins_guard:
  assumes "origins_of n horizons W_min step = Inr origins" and "0 < step"
    and "origin \<in> set origins" and "h \<in> set horizons"
  shows "origin + int h < int n"
proof -
  have "origin < int n - int (Max (set horizons))"
    using origins_of_range(2) [OF assms(1)] assms(2,3) by (rule py_range_bound)
  moreover have "h \<le> Max (set horizons)" using assms(4) by simp
  ultimately show ?thesis by linarith
qed

section \<open>The summary of the rolling-origin protocol\<close>

text \<open>A horizon that occurs \<open>c\<close> times in the horizon list gets, from every origin at
  which it passes the guard, the sample \<open>c\<close> times; the mean is the mean of the
  samples.\<close>

lemma filter_eq_replicate: "filter (\<lambda>x. x = h) xs = replicate (count_list xs h) h"
  by (induction xs) auto

lemma count_list_pos: "h \<in> set xs \<Longrightarrow> 0 < count_list xs h"
  by (induction xs) auto

lemma concat_map_guarded:
  "concat (map (\<lambda>x. if G x then replicate c (r x) else []) xs) =
     concat (map (\<lambda>x. replicate c (r x)) (filter G xs))"
  by (induction xs) simp_all

lemma sum_list_replicated:
  "sum_list (map g (concat (map (\<lambda>x. replicate c (r x)) xs))) =
     real c * sum_list (map (\<lambda>x. g (r x)) xs)"
  by (induction xs) (simp_all add: sum_list_replicate algebra_simps)

lemma length_replicated: "length (concat (map (\<lambda>x. replicate c (r x)) xs)) = c * length xs"
  by (induction xs) simp_all

lemma np_mean_replicated:
  assumes "0 < c"
  shows "np_mean (map g (concat (map (\<lambda>x. replicate c (r x)) xs))) =
           np_mean (map (\<lambda>x. g (r x)) xs)"
  using assms by (simp add: np_mean_def sum_list_replicated length_replicated)

lemma keys_empty_results: "fst ` set (empty_results horizons) = set horizons"
proof -
  have "fst ` set (fold (\<lambda>h. AList.update h v) hs al) = fst ` set al \<union> set hs" for hs v
    and al :: "(nat \<times> sample_lists) list"
    by (induction hs arbitrary: al) (auto simp: dom_update)
  then show ?thesis by (simp add: empty_results_def)
qed

lemma passes_one:
  "passes n origin hs h =
     (if origin + int h < int n then replicate (count_list hs h) h else [])"
proof (cases "origin + int h < int n")
  case True
  then have "passes n origin hs h = filter (\<lambda>x. x = h) hs"
    by (auto simp: passes_def intro: filter_cong)
  with True show ?thesis by (simp add: filter_eq_replicate)
next
  case False
  then have "passes n origin hs h = filter (\<lambda>x. False) hs"
    by (auto simp: passes_def intro: filter_cong)
  with False show ?thesis by simp
qed

lemma origin_sample_fit:
  "origin_sample lib y p origin h = Inr r \<Longrightarrow>
     \<exists>sm. fit_ar lib p (rolling_mean 24 (slice_to y origin)) = Inr sm"
  by (auto simp: origin_sample_def Let_def split: sum.splits)

lemma origin_step_result:
  assumes fit: "\<exists>sm. fit_ar lib p (rolling_mean 24 (slice_to y origin)) = Inr sm"
    and smp: "\<forall>h\<in>set horizons. origin + int h < int (length y) \<longrightarrow>
                origin_sample lib y p origin h = Inr (smp h)"
    and keys: "set horizons \<subseteq> fst ` set results"
  shows "\<exists>res. origin_step lib y p horizons origin results = Inr res \<and>
           fst ` set res = fst ` set results \<and>
           (\<forall>h ls. map_of results h = Some ls \<longrightarrow>
                map_of res h = Some (extend ls (map smp (passes (length y) origin horizons h))))"
proof -
  let ?tr = "rolling_mean 24 (slice_to y origin)"
  from fit obtain scaler model where fit': "fit_ar lib p ?tr = Inr (scaler, model)"
    by (cases "fit_ar lib p ?tr") auto
  have "\<forall>h\<in>set horizons. origin + int h < int (length y) \<longrightarrow>
          rolling_sample lib y p ?tr scaler model origin h = Inr (smp h)"
    using smp fit' by (simp add: origin_sample_def Let_def)
  from horizon_loop_result [OF this keys]
  show ?thesis using fit' by (simp add: origin_step_def Let_def)
qed

lemma rolling_summary:
  assumes org: "origins_of (length y) horizons W_min step = Inr origins"
    and fit: "\<forall>origin\<in>set origins.
                 \<exists>sm. fit_ar lib p (rolling_mean 24 (slice_to y origin)) = Inr sm"
    and smp: "\<forall>origin\<in>set origins. \<forall>h\<in>set horizons. origin + int h < int (length y) \<longrightarrow>
                 origin_sample lib y p origin h = Inr (smp origin h)"
  shows "\<exists>summary. rolling_origin_causal_protocol lib y horizons W_min step p = Inr summary \<and>
     (\<forall>h. map_of summary h =
        (if h \<in> set horizons \<and> filter (\<lambda>origin. origin + int h < int (length y)) origins \<noteq> []
         then Some \<lparr>rmse = np_mean (map (\<lambda>origin. rmse (smp origin h))
                                  (filter (\<lambda>origin. origin + int h < int (length y)) origins)),
                    skill = np_mean (map (\<lambda>origin. skill (smp origin h))
                                  (filter (\<lambda>origin. origin + int h < int (length y)) origins))\<rparr>
         else None))"
proof -
  let ?n = "length y"
  let ?g = "\<lambda>origin h. map (smp origin) (passes ?n origin horizons h)"
  let ?lst = "\<lambda>h. extend \<lparr>rmses = [], skills = []\<rparr> (concat (map (\<lambda>origin. ?g origin h) origins))"
  have keys0: "set horizons \<subseteq> fst ` set (empty_results horizons)"
    by (simp add: keys_empty_results)
  have body: "\<forall>origin\<in>set origins. \<forall>results. set horizons \<subseteq> fst ` set results \<longrightarrow>
      (\<exists>res. origin_step lib y p horizons origin results = Inr res \<and>
         fst ` set res = fst ` set results \<and>
         (\<forall>h ls. map_of results h = Some ls \<longrightarrow> map_of res h = Some (extend ls (?g origin h))))"
  proof (intro ballI allI impI)
    fix origin and results :: "(nat, sample_lists) dict"
    assume "origin \<in> set origins" and "set horizons \<subseteq> fst ` set results"
    then show "\<exists>res. origin_step lib y p horizons origin results = Inr res \<and>
         fst ` set res = fst ` set results \<and>
         (\<forall>h ls. map_of results h = Some ls \<longrightarrow> map_of res h = Some (extend ls (?g origin h)))"
      using smp fit by (intro origin_step_result) auto
  qed
  from origin_loop_result [OF body keys0] obtain results' where
    loop: "origin_loop (origin_step lib y p horizons) origins (empty_results horizons) = Inr results'"
    and lists: "\<forall>h ls. map_of (empty_results horizons) h = Some ls \<longrightarrow>
        map_of results' h = Some (extend ls (concat (map (\<lambda>origin. ?g origin h) origins)))"
    by blast
  have "\<forall>h\<in>set horizons. map_of results' h = Some (?lst h)"
    using lists by (simp add: map_of_empty_results)
  from aggregate_result [OF this, of "[]"] obtain summary where
    agg: "aggregate results' horizons [] = Inr summary" and
    entries: "\<forall>h. map_of summary h =
        (if h \<in> set horizons \<and> rmses (?lst h) \<noteq> []
         then Some \<lparr>rmse = np_mean (rmses (?lst h)), skill = np_mean (skills (?lst h))\<rparr>
         else None)"
    by auto
  have run: "rolling_origin_causal_protocol lib y horizons W_min step p = Inr summary"
    using org loop agg by (simp add: rolling_origin_causal_protocol_def Let_def)
  have "map_of summary h =
        (if h \<in> set horizons \<and> filter (\<lambda>origin. origin + int h < int ?n) origins \<noteq> []
         then Some \<lparr>rmse = np_mean (map (\<lambda>origin. rmse (smp origin h))
                                  (filter (\<lambda>origin. origin + int h < int ?n) origins)),
                    skill = np_mean (map (\<lambda>origin. skill (smp origin h))
                                  (filter (\<lambda>origin. origin + int h < int ?n) origins))\<rparr>
         else None)" for h
  proof (cases "h \<in> set horizons")
    case False
    then show ?thesis using entries by simp
  next
    case True
    let ?c = "count_list horizons h"
    let ?in = "filter (\<lambda>origin. origin + int h < int ?n) origins"
    have c: "0 < ?c" using True by (rule count_list_pos)
    have "(\<lambda>origin. ?g origin h) =
          (\<lambda>origin. if origin + int h < int ?n then replicate ?c (smp origin h) else [])"
      by (auto simp: passes_one fun_eq_iff)
    then have all: "concat (map (\<lambda>origin. ?g origin h) origins) =
        concat (map (\<lambda>origin. replicate ?c (smp origin h)) ?in)"
      by (simp only: concat_map_guarded)
    have rm: "rmses (?lst h) = map rmse (concat (map (\<lambda>origin. replicate ?c (smp origin h)) ?in))"
      and sk: "skills (?lst h) = map skill (concat (map (\<lambda>origin. replicate ?c (smp origin h)) ?in))"
      unfolding all by (simp_all add: extend_def)
    have len: "length (rmses (?lst h)) = ?c * length ?in"
      unfolding rm by (simp add: length_replicated)
    have empty: "rmses (?lst h) \<noteq> [] \<longleftrightarrow> ?in \<noteq> []"
    proof
      assume "rmses (?lst h) \<noteq> []"
      then have "0 < length (rmses (?lst h))" by simp
      then have "0 < ?c * length ?in" by (simp only: len)
      then show "?in \<noteq> []" by auto
    next
      assume "?in \<noteq> []"
      then have "0 < ?c * length ?in" using c by simp
      then have "0 < length (rmses (?lst h))" by (simp only: len)
      then show "rmses (?lst h) \<noteq> []" by auto
    qed
    have m1: "np_mean (rmses (?lst h)) = np_mean (map (\<lambda>origin. rmse (smp origin h)) ?in)"
      unfolding rm using c by (rule np_mean_replicated)
    have m2: "np_mean (skills (?lst h)) = np_mean (map (\<lambda>origin. skill (smp origin h)) ?in)"
      unfolding sk using c by (rule np_mean_replicated)
    from entries have "map_of summary h =
        (if h \<in> set horizons \<and> rmses (?lst h) \<noteq> []
         then Some \<lparr>rmse = np_mean (rmses (?lst h)), skill = np_mean (skills (?lst h))\<rparr>
         else None)" by blast
    then show ?thesis unfolding empty m1 m2 .
  qed
  with run show ?thesis by blast
qed

section \<open>Aggregation over the origins\<close>

text \<open>
  Claim C7. Let the origin sequence be defined (for any step but 0), let the estimators
  fit at every origin at which no horizon passes the guard \<open>origin + h < n\<close>, and let
  \<open>smp origin h\<close> be the sample that the protocol computes at an origin for a horizon
  that passes the guard. Then the protocol returns a mapping in which the entry of a
  horizon \<open>h\<close> holds the arithmetic means of the RMSE values and of the skill values of
  the samples of exactly the origins with \<open>origin + h < n\<close>, and a horizon with no such
  origin (or outside the horizon list) has no entry.
\<close>

theorem rolling_aggregate_mean:
  assumes org: "origins_of (length y) horizons W_min step = Inr origins"
    and fit: "\<forall>origin\<in>set origins.
                 (\<forall>h\<in>set horizons. \<not> origin + int h < int (length y)) \<longrightarrow>
                 (\<exists>sm. fit_ar lib p (rolling_mean 24 (slice_to y origin)) = Inr sm)"
    and smp: "\<forall>origin\<in>set origins. \<forall>h\<in>set horizons. origin + int h < int (length y) \<longrightarrow>
                 origin_sample lib y p origin h = Inr (smp origin h)"
  shows "\<exists>summary. rolling_origin_causal_protocol lib y horizons W_min step p = Inr summary \<and>
     (\<forall>h. map_of summary h =
        (if h \<in> set horizons \<and> filter (\<lambda>origin. origin + int h < int (length y)) origins \<noteq> []
         then Some \<lparr>rmse = np_mean (map (\<lambda>origin. rmse (smp origin h))
                                  (filter (\<lambda>origin. origin + int h < int (length y)) origins)),
                    skill = np_mean (map (\<lambda>origin. skill (smp origin h))
                                  (filter (\<lambda>origin. origin + int h < int (length y)) origins))\<rparr>
         else None))"
proof -
  have "\<exists>sm. fit_ar lib p (rolling_mean 24 (slice_to y origin)) = Inr sm"
    if origin: "origin \<in> set origins" for origin
  proof (cases "\<exists>h\<in>set horizons. origin + int h < int (length y)")
    case True
    then obtain h where "h \<in> set horizons" and "origin + int h < int (length y)" by blast
    with smp origin have "origin_sample lib y p origin h = Inr (smp origin h)" by blast
    then show ?thesis by (rule origin_sample_fit)
  next
    case False
    with fit origin show ?thesis by blast
  qed
  then have "\<forall>origin\<in>set origins.
                 \<exists>sm. fit_ar lib p (rolling_mean 24 (slice_to y origin)) = Inr sm"
    by blast
  from rolling_summary [OF org this smp] show ?thesis .
qed

theorem rolling_aggregate_mean_witness:
  "origins_of (length [1, 2, 3, 4, 5, 6, 7, 8 :: real]) [1, 3] 7 (- 1) = Inr [7, 6] \<and>
   fit_ar flat_sklearn 1 (rolling_mean 24 (slice_to [1, 2, 3, 4, 5, 6, 7, 8] 7))
     = Inr (5/2, (1, 1/4)) \<and>
   list_all (\<lambda>origin. list_all (\<lambda>h.
       origin + int h < int (length [1, 2, 3, 4, 5, 6, 7, 8 :: real]) \<longrightarrow>
       origin_sample flat_sklearn [1, 2, 3, 4, 5, 6, 7, 8] 1 origin h =
         Inr (projr (origin_sample flat_sklearn [1, 2, 3, 4, 5, 6, 7, 8] 1 origin h))) [1, 3])
     [7, 6] \<and>
   (\<exists>summary.
      rolling_origin_causal_protocol flat_sklearn [1, 2, 3, 4, 5, 6, 7, 8] [1, 3] 7 (- 1) 1
        = Inr summary \<and>
      map_of summary 1 = Some \<lparr>rmse = 9/2, skill = - (77/4)\<rparr> \<and>
      map_of summary 3 = None)"
proof -
  let ?y = "[1, 2, 3, 4, 5, 6, 7, 8 :: real]"
  let ?smp = "\<lambda>origin h. projr (origin_sample flat_sklearn ?y 1 origin h)"
  have org: "origins_of (length ?y) [1, 3] 7 (- 1) = Inr [7, 6]" by code_simp
  have f7: "fit_ar flat_sklearn 1 (rolling_mean 24 (slice_to ?y 7)) = Inr (5/2, (1, 1/4))"
    by code_simp
  have f6: "fit_ar flat_sklearn 1 (rolling_mean 24 (slice_to ?y 6)) = Inr (9/4, (1, 1/4))"
    by code_simp
  have fit: "\<forall>origin\<in>set [7, 6].
      (\<forall>h\<in>set [1, 3]. \<not> origin + int h < int (length ?y)) \<longrightarrow>
      (\<exists>sm. fit_ar flat_sklearn 1 (rolling_mean 24 (slice_to ?y origin)) = Inr sm)"
  proof (intro ballI impI)
    fix origin :: int
    assume "origin \<in> set [7, 6]"
    then consider "origin = 7" | "origin = 6" by auto
    then show "\<exists>sm. fit_ar flat_sklearn 1 (rolling_mean 24 (slice_to ?y origin)) = Inr sm"
    proof cases
      case 1
      with f7 show ?thesis by blast
    next
      case 2
      with f6 show ?thesis by blast
    qed
  qed
  have smp: "\<forall>origin\<in>set [7, 6]. \<forall>h\<in>set [1, 3]. origin + int h < int (length ?y) \<longrightarrow>
      origin_sample flat_sklearn ?y 1 origin h = Inr (?smp origin h)"
    by code_simp
  have la: "list_all (\<lambda>origin. list_all (\<lambda>h. origin + int h < int (length ?y) \<longrightarrow>
       origin_sample flat_sklearn ?y 1 origin h = Inr (?smp origin h)) [1, 3]) [7, 6]"
    by code_simp
  have m1: "np_mean (map (\<lambda>origin. rmse (?smp origin 1))
              (filter (\<lambda>origin. origin + int 1 < int (length ?y)) [7, 6])) = 9/2"
    by code_simp
  have m2: "np_mean (map (\<lambda>origin. skill (?smp origin 1))
              (filter (\<lambda>origin. origin + int 1 < int (length ?y)) [7, 6])) = - (77/4)"
    by code_simp
  have f1: "filter (\<lambda>origin. origin + int 1 < int (length ?y)) [7, 6] \<noteq> []" by simp
  have f3: "filter (\<lambda>origin. origin + int 3 < int (length ?y)) [7, 6] = []" by simp
  from rolling_aggregate_mean [OF org fit smp] obtain summary where
    run: "rolling_origin_causal_protocol flat_sklearn ?y [1, 3] 7 (- 1) 1 = Inr summary" and
    entries: "\<forall>h. map_of summary h =
        (if h \<in> set [1, 3] \<and> filter (\<lambda>origin. origin + int h < int (length ?y)) [7, 6] \<noteq> []
         then Some \<lparr>rmse = np_mean (map (\<lambda>origin. rmse (?smp origin h))
                                  (filter (\<lambda>origin. origin + int h < int (length ?y)) [7, 6])),
                    skill = np_mean (map (\<lambda>origin. skill (?smp origin h))
                                  (filter (\<lambda>origin. origin + int h < int (length ?y)) [7, 6]))\<rparr>
         else None)"
    by blast
  have e1: "map_of summary 1 = Some \<lparr>rmse = 9/2, skill = - (77/4)\<rparr>"
    using entries [THEN spec [where x = 1]] f1 unfolding m1 m2 by simp
  have e3: "map_of summary 3 = None"
    using entries [THEN spec [where x = 3]] unfolding f3 by simp
  from org f7 la run e1 e3 show ?thesis by blast
qed

section \<open>Every origin serves every horizon\<close>

text \<open>
  Claim C10 says that a non-empty origin sequence means \<open>W_min < n - max horizons\<close>
  and gives every horizon an entry, the guard excluding no sample. With a negative
  step the origins descend from \<open>W_min\<close> and lie above \<open>n - max horizons\<close>: for a series
  of length 8, horizons 1 and 2, a warm-up of 7 and a step of -1 the only origin is 7,
  the model fits there, both horizons are skipped by the guard, and the protocol
  returns the empty mapping.
\<close>

theorem rolling_descending_counterexample:
  "origins_of (length [1, 2, 3, 4, 5, 6, 7, 8 :: real]) [1, 2] 7 (- 1) = Inr [7] \<and>
   \<not> (7 < int (length [1, 2, 3, 4, 5, 6, 7, 8 :: real]) - int (Max (set [1, 2]))) \<and>
   fit_ar flat_sklearn 1 (rolling_mean 24 (slice_to [1, 2, 3, 4, 5, 6, 7, 8] 7))
     = Inr (5/2, (1, 1/4)) \<and>
   rolling_origin_causal_protocol flat_sklearn [1, 2, 3, 4, 5, 6, 7, 8] [1, 2] 7 (- 1) 1 = Inr []"
proof -
  have a: "origins_of (length [1, 2, 3, 4, 5, 6, 7, 8 :: real]) [1, 2] 7 (- 1) = Inr [7]"
    by code_simp
  have b: "\<not> (7 < int (length [1, 2, 3, 4, 5, 6, 7, 8 :: real]) - int (Max (set [1, 2])))"
    by simp
  have c: "fit_ar flat_sklearn 1 (rolling_mean 24 (slice_to [1, 2, 3, 4, 5, 6, 7, 8] 7))
     = Inr (5/2, (1, 1/4))"
    by code_simp
  have d: "rolling_origin_causal_protocol flat_sklearn [1, 2, 3, 4, 5, 6, 7, 8] [1, 2] 7 (- 1) 1
     = Inr []"
    by code_simp
  from a b c d show ?thesis by blast
qed

text \<open>
  Claim C10, amended. Let the step be at least 1, let the origin sequence be non-empty,
  and let the estimators succeed at every origin. Then \<open>W_min < n - max horizons\<close>,
  every origin and every horizon of the list satisfy \<open>origin + h < n\<close> (the guard of
  the inner loop excludes no sample), and the protocol returns a mapping whose keys are
  exactly the horizons of the list, the entry of each being the mean over all the
  origins.
\<close>

theorem rolling_all_horizons:
  assumes org: "origins_of (length y) horizons W_min step = Inr origins"
    and step: "0 < step"
    and ne: "origins \<noteq> []"
    and smp: "\<forall>origin\<in>set origins. \<forall>h\<in>set horizons.
                 origin_sample lib y p origin h = Inr (smp origin h)"
  shows "W_min < int (length y) - int (Max (set horizons)) \<and>
     (\<forall>origin\<in>set origins. \<forall>h\<in>set horizons. origin + int h < int (length y)) \<and>
     (\<exists>summary. rolling_origin_causal_protocol lib y horizons W_min step p = Inr summary \<and>
        fst ` set summary = set horizons \<and>
        (\<forall>h\<in>set horizons. map_of summary h =
           Some \<lparr>rmse = np_mean (map (\<lambda>origin. rmse (smp origin h)) origins),
                 skill = np_mean (map (\<lambda>origin. skill (smp origin h)) origins)\<rparr>))"
proof -
  have start: "W_min < int (length y) - int (Max (set horizons))"
    using py_range_nonempty [OF origins_of_range(2) [OF org] step] ne by simp
  have guard: "\<forall>origin\<in>set origins. \<forall>h\<in>set horizons. origin + int h < int (length y)"
    using org step by (auto intro: origins_guard)
  have hne: "horizons \<noteq> []" by (rule origins_of_range(1) [OF org])
  then obtain h0 where h0: "h0 \<in> set horizons" by (cases horizons) auto
  have fit: "\<forall>origin\<in>set origins.
                 \<exists>sm. fit_ar lib p (rolling_mean 24 (slice_to y origin)) = Inr sm"
  proof
    fix origin assume "origin \<in> set origins"
    with smp h0 have "origin_sample lib y p origin h0 = Inr (smp origin h0)" by blast
    then show "\<exists>sm. fit_ar lib p (rolling_mean 24 (slice_to y origin)) = Inr sm"
      by (rule origin_sample_fit)
  qed
  have smp': "\<forall>origin\<in>set origins. \<forall>h\<in>set horizons. origin + int h < int (length y) \<longrightarrow>
                 origin_sample lib y p origin h = Inr (smp origin h)"
    using smp by blast
  from rolling_summary [OF org fit smp'] obtain summary where
    run: "rolling_origin_causal_protocol lib y horizons W_min step p = Inr summary" and
    entries: "\<forall>h. map_of summary h =
        (if h \<in> set horizons \<and> filter (\<lambda>origin. origin + int h < int (length y)) origins \<noteq> []
         then Some \<lparr>rmse = np_mean (map (\<lambda>origin. rmse (smp origin h))
                                  (filter (\<lambda>origin. origin + int h < int (length y)) origins)),
                    skill = np_mean (map (\<lambda>origin. skill (smp origin h))
                                  (filter (\<lambda>origin. origin + int h < int (length y)) origins))\<rparr>
         else None)"
    by blast
  have all: "filter (\<lambda>origin. origin + int h < int (length y)) origins = origins"
    if "h \<in> set horizons" for h
    using guard that by (simp add: filter_id_conv)
  have inside: "\<forall>h\<in>set horizons. map_of summary h =
           Some \<lparr>rmse = np_mean (map (\<lambda>origin. rmse (smp origin h)) origins),
                 skill = np_mean (map (\<lambda>origin. skill (smp origin h)) origins)\<rparr>"
  proof
    fix h assume h: "h \<in> set horizons"
    from entries have "map_of summary h =
        (if h \<in> set horizons \<and> filter (\<lambda>origin. origin + int h < int (length y)) origins \<noteq> []
         then Some \<lparr>rmse = np_mean (map (\<lambda>origin. rmse (smp origin h))
                                  (filter (\<lambda>origin. origin + int h < int (length y)) origins)),
                    skill = np_mean (map (\<lambda>origin. skill (smp origin h))
                                  (filter (\<lambda>origin. origin + int h < int (length y)) origins))\<rparr>
         else None)" by blast
    then show "map_of summary h =
           Some \<lparr>rmse = np_mean (map (\<lambda>origin. rmse (smp origin h)) origins),
                 skill = np_mean (map (\<lambda>origin. skill (smp origin h)) origins)\<rparr>"
      unfolding all [OF h] using h ne by simp
  qed
  have outside: "map_of summary h = None" if "h \<notin> set horizons" for h
    using entries that by simp
  have "dom (map_of summary) = set horizons"
  proof (rule set_eqI)
    fix h show "h \<in> dom (map_of summary) \<longleftrightarrow> h \<in> set horizons"
      using inside outside [of h] by (cases "h \<in> set horizons") (auto simp: dom_def)
  qed
  then have keys: "fst ` set summary = set horizons"
    by (simp add: dom_map_of_conv_image_fst)
  from start guard run keys inside show ?thesis by blast
qed

theorem rolling_all_horizons_witness:
  "origins_of (length [2, 4, 6, 8, 10, 12, 14 :: real]) [1, 3, 1] 2 1 = Inr [2, 3] \<and>
   (0::int) < 1 \<and>
   [2, 3] \<noteq> ([] :: int list) \<and>
   list_all (\<lambda>origin. list_all (\<lambda>h.
       origin_sample flat_sklearn [2, 4, 6, 8, 10, 12, 14] 1 origin h =
         Inr (projr (origin_sample flat_sklearn [2, 4, 6, 8, 10, 12, 14] 1 origin h))) [1, 3, 1])
     [2, 3] \<and>
   2 < int (length [2, 4, 6, 8, 10, 12, 14 :: real]) - int (Max (set [1, 3, 1])) \<and>
   rolling_origin_causal_protocol flat_sklearn [2, 4, 6, 8, 10, 12, 14] [1, 3, 1] 2 1 1
     = Inr [(1, \<lparr>rmse = 15/4, skill = - (85/32)\<rparr>), (3, \<lparr>rmse = 31/4, skill = - (197/288)\<rparr>)] \<and>
   (\<exists>summary.
      rolling_origin_causal_protocol flat_sklearn [2, 4, 6, 8, 10, 12, 14] [1, 3, 1] 2 1 1
        = Inr summary \<and>
      fst ` set summary = set [1, 3, 1])"
proof -
  let ?y = "[2, 4, 6, 8, 10, 12, 14 :: real]"
  let ?smp = "\<lambda>origin h. projr (origin_sample flat_sklearn ?y 1 origin h)"
  have org: "origins_of (length ?y) [1, 3, 1] 2 1 = Inr [2, 3]" by code_simp
  have step: "(0::int) < 1" by simp
  have ne: "[2, 3] \<noteq> ([] :: int list)" by simp
  have smp: "\<forall>origin\<in>set [2, 3]. \<forall>h\<in>set [1, 3, 1].
      origin_sample flat_sklearn ?y 1 origin h = Inr (?smp origin h)"
    by code_simp
  have la: "list_all (\<lambda>origin. list_all (\<lambda>h.
       origin_sample flat_sklearn ?y 1 origin h = Inr (?smp origin h)) [1, 3, 1]) [2, 3]"
    by code_simp
  have run: "rolling_origin_causal_protocol flat_sklearn ?y [1, 3, 1] 2 1 1
     = Inr [(1, \<lparr>rmse = 15/4, skill = - (85/32)\<rparr>), (3, \<lparr>rmse = 31/4, skill = - (197/288)\<rparr>)]"
    by code_simp
  from rolling_all_horizons [OF org step ne smp]
  have start: "2 < int (length ?y) - int (Max (set [1, 3, 1]))"
    and ex: "\<exists>summary.
      rolling_origin_causal_protocol flat_sklearn ?y [1, 3, 1] 2 1 1 = Inr summary \<and>
      fst ` set summary = set [1, 3, 1]"
    by blast+
  from org step ne la start run ex show ?thesis by blast
qed

end
